theory Spec2Isabelle
  imports Complex_Main "HOL-Library.Sublist"
begin

section \<open>CPAP analysis (cpap_analysis.py): conventions of the embedding\<close>

text \<open>
  Python floats are embedded as \<^typ>\<open>real\<close>: every finite float stands for the real number
  it denotes and arithmetic is exact. Rounding, overflow to infinity and the special values
  (infinities, not-a-number) are outside the embedding; all statements below are statements
  about this exact arithmetic. Python integers are \<^typ>\<open>int\<close>, list positions and counts are
  \<^typ>\<open>nat\<close>, strings are \<^typ>\<open>string\<close>.

  A raised exception is the left summand of the result type; only the exception class is
  recorded.
\<close>

datatype error = ValueError | IndexError | ZeroDivisionError | OSError

subsection \<open>Pressure conversion\<close>

text \<open>\<^verbatim>\<open>ADC_to_pascal\<close>, lines 71-86.\<close>

definition ADC_to_pascal :: "int \<Rightarrow> real" where
  "ADC_to_pascal ADC_value =
     (let cm_H2O = (25.4 / (14745 - 1638)) * (real_of_int ADC_value - 1638);
          pascal = 98.0665 * cm_H2O
      in pascal)"

subsection \<open>Exceptions and list access\<close>

text \<open>Sequencing: the first raised exception ends the computation.\<close>

definition and_then :: "error + 'a \<Rightarrow> ('a \<Rightarrow> error + 'b) \<Rightarrow> error + 'b" where
  "and_then m f = (case m of Inl e \<Rightarrow> Inl e | Inr v \<Rightarrow> f v)"

text \<open>\<^verbatim>\<open>xs[i]\<close> for a non-negative position: IndexError out of range.\<close>

definition item :: "'a list \<Rightarrow> nat \<Rightarrow> error + 'a" where
  "item xs i = (if i < length xs then Inr (xs ! i) else Inl IndexError)"

text \<open>\<^verbatim>\<open>xs[a:b]\<close> for non-negative bounds: a slice never raises.\<close>

definition slice :: "'a list \<Rightarrow> nat \<Rightarrow> nat \<Rightarrow> 'a list" where
  "slice xs a b = drop a (take b xs)"

text \<open>Entries of the log file \<^verbatim>\<open>cpap_analysis.log\<close>, one constructor per message.\<close>

datatype log_entry =
    Missing_value nat "string list"
  | Non_numeric nat "string list"
  | Nan_value nat "string list"
  | Starting_analysis string
  | Negative_leakage

subsection \<open>Breath detection\<close>

text \<open>
  The peak search \<^verbatim>\<open>scipy.signal.find_peaks\<close> is a library function; the functions that
  call it take it as the parameter \<open>find_peaks\<close>, applied to the flow, the height, the
  prominence and the distance, and returning the peak positions.
\<close>

type_synonym peak_search = "real list \<Rightarrow> real \<Rightarrow> real \<Rightarrow> nat \<Rightarrow> nat list"

text \<open>Body of the loop of \<^verbatim>\<open>count_breaths\<close>, lines 207-211, for the peaks \<open>p\<close> and \<open>q\<close>.\<close>

definition cycle_check :: "real list \<Rightarrow> nat \<Rightarrow> nat \<Rightarrow> error + bool" where
  "cycle_check flow_data p q =
     (let check_zero = (0 \<in> set (slice flow_data p q));
          check_negative = (\<exists>n \<in> set (slice flow_data p q). n < 0)
      in and_then (item flow_data (p + 1)) (\<lambda>nxt.
           let check_time = (nxt \<noteq> 0)
           in Inr (check_time \<and> (check_zero \<or> check_negative))))"

text \<open>The loop of lines 206-212 over the positions \<open>i\<close> of \<^verbatim>\<open>range(length-1)\<close>.\<close>

fun validate_loop :: "real list \<Rightarrow> nat list \<Rightarrow> nat list \<Rightarrow> nat list \<Rightarrow> error + nat list" where
  "validate_loop flow_data peaks [] valid_peaks = Inr valid_peaks"
| "validate_loop flow_data peaks (i # rest) valid_peaks =
     and_then (cycle_check flow_data (peaks ! i) (peaks ! (i + 1))) (\<lambda>ok.
       validate_loop flow_data peaks rest
         (if ok then valid_peaks @ [peaks ! i] else valid_peaks))"

text \<open>
  \<^verbatim>\<open>count_breaths\<close>, lines 177-217. The slice \<^verbatim>\<open>flow_data[peaks[-1]:-1]\<close> ends before the
  last sample.
\<close>

definition count_breaths :: "peak_search \<Rightarrow> real list \<Rightarrow> real \<Rightarrow> real \<Rightarrow> nat \<Rightarrow> error + (nat list \<times> nat)" where
  "count_breaths find_peaks flow_data h pro d =
     (let peaks = find_peaks flow_data h pro d;
          length_peaks = length peaks
      in if length peaks = 0 then Inr ([], 0)
         else and_then (validate_loop flow_data peaks [0..<length_peaks - 1] []) (\<lambda>valid_peaks.
           let valid_peaks =
                 (if 0 \<in> set (slice flow_data (last peaks) (length flow_data - 1))
                  then valid_peaks @ [last peaks] else valid_peaks)
           in Inr (valid_peaks, length valid_peaks)))"

text \<open>The default thresholds of \<^verbatim>\<open>count_breaths\<close>: \<^verbatim>\<open>h=11e-5, pro=2.5e-4, d=49\<close>.\<close>

definition default_h :: real where "default_h = 11 / 10 ^ 5"
definition default_pro :: real where "default_pro = 25 / 10 ^ 5"
definition default_d :: nat where "default_d = 49"

text \<open>\<^verbatim>\<open>calculate_duration\<close>, lines 158-174: \<^verbatim>\<open>time[-1] - time[0]\<close>.\<close>

definition calculate_duration :: "real list \<times> real list \<Rightarrow> error + real" where
  "calculate_duration t_vs_flow =
     (let time = fst t_vs_flow
      in if time = [] then Inl IndexError else Inr (last time - hd time))"

text \<open>\<^verbatim>\<open>calculate_breath_rate_bpm\<close>, lines 220-237.\<close>

definition calculate_breath_rate_bpm :: "peak_search \<Rightarrow> real list \<times> real list \<Rightarrow> error + real" where
  "calculate_breath_rate_bpm find_peaks t_vs_flow =
     and_then (calculate_duration t_vs_flow) (\<lambda>duration.
     and_then (count_breaths find_peaks (snd t_vs_flow) default_h default_pro default_d) (\<lambda>r.
       let breaths = snd r
       in if duration = 0 then Inl ZeroDivisionError
          else Inr (real breaths / duration * 60)))"

text \<open>
  \<^verbatim>\<open>calculate_breath_times\<close>, lines 240-262. \<^verbatim>\<open>time[valid_peaks]\<close> reads the array of times at
  every accepted position and raises IndexError when one is out of range.
\<close>

fun take_items :: "'a list \<Rightarrow> nat list \<Rightarrow> error + 'a list" where
  "take_items xs [] = Inr []"
| "take_items xs (i # rest) =
     and_then (item xs i) (\<lambda>v. and_then (take_items xs rest) (\<lambda>vs. Inr (v # vs)))"

definition calculate_breath_times :: "peak_search \<Rightarrow> real list \<times> real list \<Rightarrow> error + real list" where
  "calculate_breath_times find_peaks t_vs_flow =
     (let time = fst t_vs_flow; flow_data = snd t_vs_flow
      in and_then (count_breaths find_peaks flow_data default_h default_pro default_d) (\<lambda>r.
           let valid_peaks = fst r; breaths = snd r
           in if breaths = 0 then Inr [] else take_items time valid_peaks))"

subsection \<open>Apnea detection\<close>

text \<open>Lines 282-288 of \<^verbatim>\<open>count_apnea\<close>: the scan of the breath times.\<close>

definition apnea_scan :: "real list \<Rightarrow> nat" where
  "apnea_scan breath_times =
     (if breath_times = [] then 0
      else foldl (\<lambda>apnea_count i.
                    if breath_times ! (i + 1) - breath_times ! i > 10
                    then apnea_count + 1 else apnea_count)
             0 [0..<length breath_times - 1])"

text \<open>\<^verbatim>\<open>count_apnea\<close>, lines 265-288.\<close>

definition count_apnea :: "peak_search \<Rightarrow> real list \<times> real list \<Rightarrow> error + nat" where
  "count_apnea find_peaks t_vs_flow =
     and_then (calculate_breath_times find_peaks t_vs_flow) (\<lambda>breath_times.
       Inr (apnea_scan breath_times))"

subsection \<open>Leakage\<close>

text \<open>\<^verbatim>\<open>np.diff\<close>: the differences of neighbours, one element shorter than the input.\<close>

fun diff :: "real list \<Rightarrow> real list" where
  "diff (a # b # rest) = (b - a) # diff (b # rest)"
| "diff _ = []"

text \<open>The loop of lines 314-315 over the positions of \<^verbatim>\<open>range(len(flow) - 1)\<close>.\<close>

fun leakage_loop :: "real list \<Rightarrow> real list \<Rightarrow> nat list \<Rightarrow> real \<Rightarrow> error + real" where
  "leakage_loop flow dt [] total_leakage = Inr total_leakage"
| "leakage_loop flow dt (i # rest) total_leakage =
     and_then (item flow i) (\<lambda>f.
     and_then (item dt i) (\<lambda>step.
       leakage_loop flow dt rest (total_leakage + f * step)))"

text \<open>\<^verbatim>\<open>calculate_leakage\<close>, lines 291-321; the warning is returned with the value.\<close>

definition calculate_leakage :: "real list \<times> real list \<Rightarrow> error + (real \<times> log_entry list)" where
  "calculate_leakage t_vs_flow =
     (let time = fst t_vs_flow; flow = snd t_vs_flow;
          dt = diff time
      in and_then (leakage_loop flow dt [0..<length flow - 1] 0) (\<lambda>total_leakage.
           let total_leakage_liters = total_leakage * 1000
           in Inr (total_leakage_liters,
                   if total_leakage_liters < 0 then [Negative_leakage] else [])))"

subsection \<open>The cycle-completion rule in the words of the specification\<close>

text \<open>
  A peak at \<open>p\<close> with next peak at \<open>q\<close> is accepted when the sample after \<open>p\<close> is nonzero and
  the window from \<open>p\<close> up to but excluding \<open>q\<close> holds a zero sample or a negative sample. The
  final peak at \<open>p\<close> is accepted when a zero sample lies between \<open>p\<close> and the last sample,
  the last sample excluded.
\<close>

definition pair_accepted :: "real list \<Rightarrow> nat \<Rightarrow> nat \<Rightarrow> bool" where
  "pair_accepted flow_data p q \<longleftrightarrow>
     flow_data ! (p + 1) \<noteq> 0 \<and>
     ((\<exists>k\<in>{p..<q}. flow_data ! k = 0) \<or> (\<exists>k\<in>{p..<q}. flow_data ! k < 0))"

definition final_accepted :: "real list \<Rightarrow> nat \<Rightarrow> bool" where
  "final_accepted flow_data p \<longleftrightarrow> (\<exists>k\<in>{p..<length flow_data - 1}. flow_data ! k = 0)"

subsection \<open>Record loader\<close>

text \<open>
  \<^verbatim>\<open>float(s)\<close> and \<^verbatim>\<open>int(s)\<close> are builtins of Python; the functions that call them take
  them as the parameters \<open>to_float\<close> and \<open>to_int\<close>, whose value \<open>None\<close> stands for the
  ValueError that the builtin raises on a string it does not accept.
\<close>

type_synonym float_builtin = "string \<Rightarrow> real option"
type_synonym int_builtin = "string \<Rightarrow> int option"

definition py_float :: "float_builtin \<Rightarrow> string \<Rightarrow> error + real" where
  "py_float to_float s = (case to_float s of None \<Rightarrow> Inl ValueError | Some v \<Rightarrow> Inr v)"

definition py_int :: "int_builtin \<Rightarrow> string \<Rightarrow> error + int" where
  "py_int to_int s = (case to_int s of None \<Rightarrow> Inl ValueError | Some v \<Rightarrow> Inr v)"

text \<open>The loop of \<^verbatim>\<open>is_correct_data\<close>, lines 30-39, over the tokens still to be checked.\<close>

fun check_tokens :: "float_builtin \<Rightarrow> nat \<Rightarrow> string list \<Rightarrow> string list \<Rightarrow> bool \<times> log_entry list" where
  "check_tokens to_float line patient [] = (True, [])"
| "check_tokens to_float line patient (dat # rest) =
     (case to_float dat of
        None \<Rightarrow> (False, [Non_numeric line patient])
      | Some v \<Rightarrow>
          if dat = ''NaN'' then (False, [Nan_value line patient])
          else check_tokens to_float line patient rest)"

text \<open>\<^verbatim>\<open>is_correct_data\<close>, lines 12-39: the verdict and the messages logged.\<close>

definition is_correct_data :: "float_builtin \<Rightarrow> nat \<Rightarrow> string list \<Rightarrow> bool \<times> log_entry list" where
  "is_correct_data to_float line patient =
     (if length patient \<noteq> 7 then (False, [Missing_value line patient])
      else check_tokens to_float line patient patient)"

text \<open>
  A text file is its content as the text mode of Python delivers it, a string in which the
  character 10 ends a line. Reading it line by line gives every line with its terminator,
  the last line possibly without one.
\<close>

fun lines_of :: "string \<Rightarrow> string list" where
  "lines_of [] = []"
| "lines_of (c # cs) =
     (if c = CHR 0x0A then [c] # lines_of cs
      else (case lines_of cs of [] \<Rightarrow> [[c]] | l # ls \<Rightarrow> (c # l) # ls))"

text \<open>\<^verbatim>\<open>s.strip("\n")\<close>: the line feeds at both ends are removed.\<close>

definition strip_newlines :: "string \<Rightarrow> string" where
  "strip_newlines s =
     rev (dropWhile (\<lambda>c. c = CHR 0x0A) (rev (dropWhile (\<lambda>c. c = CHR 0x0A) s)))"

text \<open>\<^verbatim>\<open>s.split(",")\<close>: every comma separates two tokens, the empty string is one empty token.\<close>

fun split_comma :: "string \<Rightarrow> string list" where
  "split_comma [] = [[]]"
| "split_comma (c # cs) =
     (if c = CHR '','' then [] # split_comma cs
      else (case split_comma cs of [] \<Rightarrow> [[c]] | t # ts \<Rightarrow> (c # t) # ts))"

text \<open>The loop of \<^verbatim>\<open>load_patient\<close>, lines 64-67; \<open>i\<close> is the counter of \<^verbatim>\<open>enumerate\<close>.\<close>

fun load_loop :: "float_builtin \<Rightarrow> nat \<Rightarrow> string list \<Rightarrow> string list list \<Rightarrow> log_entry list
    \<Rightarrow> string list list \<times> log_entry list" where
  "load_loop to_float i [] valid_data logged = (valid_data, logged)"
| "load_loop to_float i (line # rest) valid_data logged =
     (let patient_data = split_comma (strip_newlines line);
          verdict = is_correct_data to_float (i + 2) patient_data
      in load_loop to_float (i + 1) rest
           (if fst verdict then valid_data @ [patient_data] else valid_data)
           (logged @ snd verdict))"

text \<open>
  \<^verbatim>\<open>load_patient\<close>, lines 42-68. The files that can be opened for reading are a map from
  paths to contents; opening any other path raises OSError.
\<close>

definition load_patient :: "float_builtin \<Rightarrow> (string \<rightharpoonup> string) \<Rightarrow> string
    \<Rightarrow> error + (string list list \<times> log_entry list)" where
  "load_patient to_float files path =
     (case files path of
        None \<Rightarrow> Inl OSError
      | Some content \<Rightarrow>
          let file = lines_of content;
              keys = split_comma (strip_newlines (case file of [] \<Rightarrow> [] | l # ls \<Rightarrow> l));
              valid_data = [keys]
          in Inr (load_loop to_float 0 (tl file) valid_data []))"

subsection \<open>Flow computation\<close>

text \<open>
  \<^verbatim>\<open>flow_calculation\<close>, lines 89-118. \<^verbatim>\<open>10**-3\<close> is the float 0.001; \<^verbatim>\<open>math.sqrt\<close> raises
  ValueError on a negative argument.
\<close>

definition flow_calculation :: "real \<Rightarrow> real \<Rightarrow> error + real" where
  "flow_calculation p1 p2 =
     (let density = 1.199;
          d1 = 15 * (1 / 10 ^ 3);
          d2 = 12 * (1 / 10 ^ 3);
          A1 = pi * (d1 / 2) ^ 2;
          A2 = pi * (d2 / 2) ^ 2;
          radicand = (2 / density) * (p1 - p2) / ((A1 / A2) ^ 2 - 1)
      in if radicand < 0 then Inl ValueError else Inr (A1 * sqrt radicand))"

text \<open>
  Body of the loop of \<^verbatim>\<open>flow_analysis\<close>, lines 145-152, for the record \<open>row\<close>: the time and
  the flow that are appended.
\<close>

definition flow_row :: "float_builtin \<Rightarrow> int_builtin \<Rightarrow> string list \<Rightarrow> error + (real \<times> real)" where
  "flow_row to_float to_int row =
     and_then (and_then (item row 0) (py_float to_float)) (\<lambda>t.
     and_then (and_then (item row 1) (py_int to_int)) (\<lambda>adc2.
     and_then (and_then (item row 2) (py_int to_int)) (\<lambda>adc_ins.
     and_then (and_then (item row 3) (py_int to_int)) (\<lambda>adc_exp.
       let p2 = ADC_to_pascal adc2;
           p1_ins = ADC_to_pascal adc_ins;
           p1_exp = ADC_to_pascal adc_exp
       in and_then
            (if p1_ins \<ge> p1_exp then flow_calculation p1_ins p2
             else and_then (flow_calculation p1_exp p2) (\<lambda>q. Inr (- q)))
            (\<lambda>Q. Inr (t, Q))))))"

text \<open>The loop of lines 144-153 over the records after the header.\<close>

fun flow_loop :: "float_builtin \<Rightarrow> int_builtin \<Rightarrow> string list list \<Rightarrow> real list \<Rightarrow> real list
    \<Rightarrow> error + (real list \<times> real list)" where
  "flow_loop to_float to_int [] time flow_data = Inr (time, flow_data)"
| "flow_loop to_float to_int (row # rest) time flow_data =
     and_then (flow_row to_float to_int row) (\<lambda>tq.
       flow_loop to_float to_int rest (time @ [fst tq]) (flow_data @ [snd tq]))"

text \<open>\<^verbatim>\<open>flow_analysis\<close>, lines 121-155.\<close>

definition flow_analysis :: "float_builtin \<Rightarrow> int_builtin \<Rightarrow> (string \<rightharpoonup> string) \<Rightarrow> string
    \<Rightarrow> error + ((real list \<times> real list) \<times> log_entry list)" where
  "flow_analysis to_float to_int files path =
     and_then (load_patient to_float files path) (\<lambda>loaded.
       let valid_data = fst loaded
       in and_then (flow_loop to_float to_int (drop 1 valid_data) [] []) (\<lambda>t_vs_flow.
            Inr (t_vs_flow, Starting_analysis path # snd loaded)))"

subsection \<open>The acceptance rule and the flow equation in the words of the specification\<close>

text \<open>
  A record is accepted when it has exactly 7 tokens, every token is accepted by \<^verbatim>\<open>float\<close>,
  and no token is the string \<^verbatim>\<open>NaN\<close>.
\<close>

definition record_accepted :: "float_builtin \<Rightarrow> string list \<Rightarrow> bool" where
  "record_accepted to_float tokens \<longleftrightarrow>
     length tokens = 7 \<and> (\<forall>t\<in>set tokens. to_float t \<noteq> None \<and> t \<noteq> ''NaN'')"

text \<open>
  The orifice equation with the cross-sections of the diameters 15 mm and 12 mm and the
  density 1.199.
\<close>

definition orifice_flow :: "real \<Rightarrow> real \<Rightarrow> real" where
  "orifice_flow p1 p2 =
     (let A1 = pi * ((15 / 1000) / 2) ^ 2;
          A2 = pi * ((12 / 1000) / 2) ^ 2
      in A1 * sqrt ((2 / 1.199) * (p1 - p2) / ((A1 / A2) ^ 2 - 1)))"

subsection \<open>Concrete builtins and files for the examples\<close>

text \<open>
  Plain decimal literals: an optional sign, digits and, for \<open>decimal_float\<close>, an optional
  fraction. On such a string \<^verbatim>\<open>int\<close> and \<^verbatim>\<open>float\<close> return the number computed here
  (\<^verbatim>\<open>int\<close> accepts no fraction). The examples use these functions for the builtins, on
  plain decimal tokens and on tokens that the builtins reject as well.
\<close>

definition is_digit :: "char \<Rightarrow> bool" where
  "is_digit c \<longleftrightarrow> c \<in> set ''0123456789''"

definition digits_value :: "string \<Rightarrow> nat" where
  "digits_value ds = foldl (\<lambda>v c. 10 * v + (of_char c - 48)) 0 ds"

definition unsigned_part :: "string \<Rightarrow> string" where
  "unsigned_part s = (case s of [] \<Rightarrow> [] | c # cs \<Rightarrow> if c = CHR ''-'' \<or> c = CHR ''+'' then cs else s)"

definition sign_of :: "string \<Rightarrow> int" where
  "sign_of s = (case s of [] \<Rightarrow> 1 | c # cs \<Rightarrow> if c = CHR ''-'' then - 1 else 1)"

definition decimal_int :: int_builtin where
  "decimal_int s =
     (let body = unsigned_part s
      in if body \<noteq> [] \<and> list_all is_digit body
         then Some (sign_of s * int (digits_value body)) else None)"

definition decimal_float :: float_builtin where
  "decimal_float s =
     (let body = unsigned_part s;
          whole = takeWhile is_digit body;
          rest = dropWhile is_digit body;
          frac = tl rest
      in if rest = [] then
           (if whole = [] then None else Some (real_of_int (sign_of s) * real (digits_value whole)))
         else if hd rest = CHR ''.'' \<and> list_all is_digit frac \<and> (whole \<noteq> [] \<or> frac \<noteq> [])
         then Some (real_of_int (sign_of s) *
                    (real (digits_value whole) + real (digits_value frac) / 10 ^ length frac))
         else None)"

text \<open>Input files of the examples: a header line and records, one per line.\<close>

definition sample_file :: string where
  "sample_file =
     ''t,p2,pins,pexp,a,b,c\<newline>'' @
     ''0.1,1700,1800,1650,0,0,0\<newline>'' @
     ''0.2,1700,1800,1650,0,0\<newline>'' @
     ''0.3,1700,x,1650,0,0,0\<newline>'' @
     ''0.4,1700,1640,1900,0,0,0\<newline>''"

definition domain_file_a :: string where
  "domain_file_a =
     ''t,p2,pins,pexp,a,b,c\<newline>'' @
     ''0.1,1900,1800,1650,0,0,0\<newline>''"

definition domain_file_b :: string where
  "domain_file_b =
     ''t,p2,pins,pexp,a,b,c\<newline>'' @
     ''0.1,1700,1800,1650,0,0,0\<newline>'' @
     ''0.2,1900,1800,1650,0,0,0\<newline>''"

definition fractional_file :: string where
  "fractional_file =
     ''t,p2,pins,pexp,a,b,c\<newline>'' @
     ''0.1,4.5,1800,1650,0,0,0\<newline>''"

subsection \<open>The peak search\<close>

text \<open>
  Modelled from the spec: the peak search of step 1 of the breath detector, which
  \<^verbatim>\<open>count_breaths\<close> calls as the library function \<^verbatim>\<open>scipy.signal.find_peaks\<close> with a height,
  a prominence and a distance; its code is not part of the repository. The model follows the
  library: the local maxima of the sequence, then the height threshold, then the distance
  selection, which visits the peaks from the highest to the lowest and removes from each peak
  that is still kept the peaks closer than the distance, then the prominence threshold. For a
  flat peak the library returns the middle sample, where the specification names the earliest
  one; the flows of the examples have no flat peak. The library sorts the peaks by height
  without fixing the order of peaks of equal height; the model visits those from the last to
  the first. The library refuses a distance below 1; the model describes it for the
  distances from 1 on.
\<close>

text \<open>Modelled from the spec: the first position from \<open>i_ahead\<close> on that leaves the plateau of \<open>i\<close>.\<close>

function plateau_end :: "real list \<Rightarrow> nat \<Rightarrow> nat \<Rightarrow> nat" where
  "plateau_end x i i_ahead =
     (if i_ahead < length x - 1 \<and> x ! i_ahead = x ! i then plateau_end x i (i_ahead + 1)
      else i_ahead)"
  by pat_completeness auto

termination
  by (relation "measure (\<lambda>(x, i, i_ahead). length x - 1 - i_ahead)") auto

declare plateau_end.simps [simp del]

lemma plateau_end_ge: "i_ahead \<le> plateau_end x i i_ahead"
proof (induction x i i_ahead rule: plateau_end.induct)
  case (1 x i i_ahead)
  show ?case
  proof (cases "i_ahead < length x - 1 \<and> x ! i_ahead = x ! i")
    case True
    with "1" have "i_ahead + 1 \<le> plateau_end x i (i_ahead + 1)" by simp
    with True show ?thesis by (subst plateau_end.simps) simp
  next
    case False
    then show ?thesis by (subst plateau_end.simps) auto
  qed
qed

text \<open>
  Modelled from the spec: the local maxima from position \<open>i\<close> on; the first and the
  last sample are never maxima.
\<close>

function local_maxima_from :: "real list \<Rightarrow> nat \<Rightarrow> nat list" where
  "local_maxima_from x i =
     (if i < length x - 1 then
        (if x ! (i - 1) < x ! i then
           (if x ! (plateau_end x i (i + 1)) < x ! i
            then ((i + (plateau_end x i (i + 1) - 1)) div 2)
                   # local_maxima_from x (plateau_end x i (i + 1) + 1)
            else local_maxima_from x (i + 1))
         else local_maxima_from x (i + 1))
      else [])"
  by pat_completeness auto

termination
proof (relation "measure (\<lambda>(x, i). length x - 1 - i)")
  show "wf (measure (\<lambda>(x, i). length x - 1 - i))" by simp
next
  fix x :: "real list" and i :: nat
  assume "i < length x - 1"
  moreover have "i + 1 \<le> plateau_end x i (i + 1)" by (rule plateau_end_ge)
  ultimately show "((x, plateau_end x i (i + 1) + 1), x, i) \<in> measure (\<lambda>(x, i). length x - 1 - i)"
    by simp
qed auto

declare local_maxima_from.simps [simp del]

definition local_maxima :: "real list \<Rightarrow> nat list" where
  "local_maxima x = local_maxima_from x 1"

text \<open>
  Modelled from the spec: the distance selection. \<open>removed\<close> collects the peaks that are
  no longer kept; two peaks are too close when their positions differ by less than \<open>d\<close>.
\<close>

fun distance_loop :: "nat \<Rightarrow> nat list \<Rightarrow> nat list \<Rightarrow> nat list \<Rightarrow> nat list" where
  "distance_loop d peaks [] removed = removed"
| "distance_loop d peaks (j # rest) removed =
     (if j \<in> set removed then distance_loop d peaks rest removed
      else distance_loop d peaks rest
             (removed @ filter (\<lambda>k. k \<noteq> j \<and> (if k < j then j - k else k - j) < d) peaks))"

definition select_by_peak_distance :: "real list \<Rightarrow> nat list \<Rightarrow> nat \<Rightarrow> nat list" where
  "select_by_peak_distance x peaks d =
     (let removed = distance_loop d peaks (rev (sort_key (\<lambda>p. x ! p) peaks)) []
      in filter (\<lambda>p. p \<notin> set removed) peaks)"

text \<open>
  Modelled from the spec: the prominence of a peak, its height above the higher of the two
  lowest samples found to the left and to the right before a higher sample is met.
\<close>

definition prominence :: "real list \<Rightarrow> nat \<Rightarrow> real" where
  "prominence x peak =
     (let left_min = fold min (takeWhile (\<lambda>v. v \<le> x ! peak) (rev (take (peak + 1) x))) (x ! peak);
          right_min = fold min (takeWhile (\<lambda>v. v \<le> x ! peak) (drop peak x)) (x ! peak)
      in x ! peak - max left_min right_min)"

text \<open>Modelled from the spec: the peak search with its three thresholds.\<close>

definition scipy_find_peaks :: peak_search where
  "scipy_find_peaks x h pro d =
     (let peaks = local_maxima x;
          peaks = filter (\<lambda>p. h \<le> x ! p) peaks;
          peaks = select_by_peak_distance x peaks d;
          peaks = filter (\<lambda>p. pro \<le> prominence x p) peaks
      in peaks)"

text \<open>Two peaks are too close for the distance \<open>d\<close>.\<close>

definition near :: "nat \<Rightarrow> nat \<Rightarrow> nat \<Rightarrow> bool" where
  "near d j k \<longleftrightarrow> k \<noteq> j \<and> (if k < j then j - k else k - j) < d"

subsection \<open>Metrics\<close>

text \<open>The dictionary built by \<^verbatim>\<open>get_metrics\<close>, one field per key.\<close>

record metrics =
  duration :: real
  breaths :: nat
  breath_rate_bpm :: real
  breath_times :: "real list"
  apnea_count :: nat
  leakage :: real

text \<open>
  The file system as far as \<^verbatim>\<open>get_metrics\<close> writes to it: the paths that can be opened for
  writing, and the JSON files written, each holding the metrics that were dumped.
\<close>

record disk =
  writable :: "string \<Rightarrow> bool"
  json_files :: "string \<rightharpoonup> metrics"

text \<open>
  \<^verbatim>\<open>os.path.basename\<close> and the first component of \<^verbatim>\<open>os.path.splitext\<close>, for paths with the
  separator \<^verbatim>\<open>/\<close>: the extension starts at the last dot of the last path component, unless
  only dots precede it there.
\<close>

definition basename :: "string \<Rightarrow> string" where
  "basename p = rev (takeWhile (\<lambda>c. c \<noteq> CHR ''/'') (rev p))"

definition splitext_root :: "string \<Rightarrow> string" where
  "splitext_root p =
     (let name = rev (takeWhile (\<lambda>c. c \<noteq> CHR ''/'') (rev p));
          dir = rev (dropWhile (\<lambda>c. c \<noteq> CHR ''/'') (rev p))
      in case dropWhile (\<lambda>c. c \<noteq> CHR ''.'') (rev name) of
           [] \<Rightarrow> p
         | dot # before \<Rightarrow> if (\<exists>c\<in>set before. c \<noteq> CHR ''.'') then dir @ rev before else p)"

text \<open>The expression of line 369.\<close>

definition output_file_of :: "string \<Rightarrow> string" where
  "output_file_of input_file = splitext_root (basename input_file) @ ''.json''"

text \<open>
  \<^verbatim>\<open>get_metrics\<close>, lines 324-373. Opening the output file raises OSError when the path is
  not writable; otherwise the metrics are dumped into it.
\<close>

definition get_metrics :: "peak_search \<Rightarrow> disk \<Rightarrow> real list \<times> real list \<Rightarrow> string
    \<Rightarrow> error + (metrics \<times> disk \<times> log_entry list)" where
  "get_metrics find_peaks dsk t_vs_flow input_file =
     and_then (calculate_duration t_vs_flow) (\<lambda>duration.
     and_then (count_breaths find_peaks (snd t_vs_flow) default_h default_pro default_d) (\<lambda>counted.
     and_then (calculate_breath_rate_bpm find_peaks t_vs_flow) (\<lambda>breath_rate_bpm.
     and_then (calculate_breath_times find_peaks t_vs_flow) (\<lambda>breath_times.
     and_then (count_apnea find_peaks t_vs_flow) (\<lambda>apnea_count.
     and_then (calculate_leakage t_vs_flow) (\<lambda>leaked.
       let metrics = \<lparr> duration = duration, breaths = snd counted,
                         breath_rate_bpm = breath_rate_bpm, breath_times = breath_times,
                         apnea_count = apnea_count, leakage = fst leaked \<rparr>;
           output_file = output_file_of input_file
       in if writable dsk output_file
          then Inr (metrics, dsk\<lparr> json_files := (json_files dsk)(output_file \<mapsto> metrics) \<rparr>, snd leaked)
          else Inl OSError))))))"

subsection \<open>Concrete flow and disks for the examples\<close>

text \<open>
  A flow of 53 samples: a peak of height 1 at position 1, a zero right after it, and a peak
  of height 1/2 at position 50 with no zero after it.
\<close>

definition bump_flow :: "real list" where
  "bump_flow = [0, 1, 0] @ replicate 47 (1 / 10) @ [1 / 2, 1 / 10, 1 / 10]"

definition open_disk :: disk where
  "open_disk = \<lparr> writable = (\<lambda>p. True), json_files = Map.empty \<rparr>"

definition read_only_disk :: disk where
  "read_only_disk = \<lparr> writable = (\<lambda>p. False), json_files = Map.empty \<rparr>"

section \<open>Pressure conversion: properties\<close>

lemma ADC_to_pascal_linear:
  "ADC_to_pascal c = (98.0665 * 25.4 / 13107) * (real_of_int c - 1638)"
  by (simp add: ADC_to_pascal_def)

text \<open>
  Claim C8. The conversion maps code 1638 to 0, is strictly increasing in its integer
  argument, and is the same linear formula for every code: nothing is clamped, so a code
  below 1638 gives a negative pressure.
\<close>

theorem ADC_to_pascal_zero_and_strictly_increasing:
  "ADC_to_pascal 1638 = 0
   \<and> (a < b \<longrightarrow> ADC_to_pascal a < ADC_to_pascal b)
   \<and> ADC_to_pascal c = (98.0665 * 25.4 / 13107) * (real_of_int c - 1638)
   \<and> (c < 1638 \<longrightarrow> ADC_to_pascal c < 0)"
proof -
  have slope: "(0::real) < 98.0665 * 25.4 / 13107" by simp
  have z: "ADC_to_pascal 1638 = 0" by (simp add: ADC_to_pascal_def)
  have m: "a < b \<longrightarrow> ADC_to_pascal a < ADC_to_pascal b"
    unfolding ADC_to_pascal_linear using slope by (simp add: mult_less_cancel_left_pos)
  have n: "c < 1638 \<longrightarrow> ADC_to_pascal c < 0"
    unfolding ADC_to_pascal_linear using slope by (simp add: mult_less_0_iff)
  from z m n ADC_to_pascal_linear show ?thesis by blast
qed

theorem ADC_to_pascal_zero_and_strictly_increasing_witness:
  "ADC_to_pascal 1638 = 0
   \<and> ADC_to_pascal 0 < ADC_to_pascal 16383
   \<and> ADC_to_pascal 0 = (98.0665 * 25.4 / 13107) * (real_of_int 0 - 1638)
   \<and> ADC_to_pascal 0 < 0"
  using ADC_to_pascal_zero_and_strictly_increasing [of 0 16383 0] by simp


section \<open>Apnea detection and leakage: properties\<close>

lemma foldl_count: "foldl (\<lambda>c i. if P i then c + 1 else c) c0 js = c0 + length (filter P js)"
  by (induction js arbitrary: c0) auto

lemma filter_upt_card: "length (filter P [0..<n]) = card {i. i < n \<and> P i}"
  by (simp add: length_filter_conv_card cong: conj_cong)

lemma apnea_scan_card:
  "apnea_scan bt = card {i. i + 1 < length bt \<and> bt ! (i + 1) - bt ! i > 10}"
proof (cases "bt = []")
  case True
  then show ?thesis by (simp add: apnea_scan_def)
next
  case False
  have "{i. i < length bt - 1 \<and> bt ! (i + 1) - bt ! i > 10} = {i. i + 1 < length bt \<and> bt ! (i + 1) - bt ! i > 10}"
    by auto
  with False show ?thesis
    by (simp add: apnea_scan_def foldl_count filter_upt_card)
qed

lemma diff_nth: "i + 1 < length ts \<Longrightarrow> diff ts ! i = ts ! (i + 1) - ts ! i"
proof (induction ts arbitrary: i rule: diff.induct)
  case (1 a b rest)
  then show ?case by (cases i) auto
qed auto

lemma length_diff: "length (diff ts) = length ts - 1"
  by (induction ts rule: diff.induct) auto

lemma leakage_loop_sum:
  "\<forall>i\<in>set js. i < length flow \<and> i < length dt \<Longrightarrow>
   leakage_loop flow dt js acc = Inr (acc + (\<Sum>i\<leftarrow>js. flow ! i * dt ! i))"
  by (induction js arbitrary: acc) (auto simp: and_then_def item_def algebra_simps)

lemma leakage_loop_short:
  "i \<in> set js \<Longrightarrow> length dt \<le> i \<or> length flow \<le> i \<Longrightarrow> leakage_loop flow dt js acc = Inl IndexError"
  by (induction js arbitrary: acc) (auto simp: and_then_def item_def split: sum.splits)

text \<open>
  Claim C5. The apnea count is the number of adjacent pairs of breath times whose gap is
  strictly greater than 10 seconds; it is 0 for an empty or single-element list and 1 for the
  breath times 0, 5, 17, 20. \<^verbatim>\<open>count_apnea\<close> returns this count of the breath times that
  \<^verbatim>\<open>calculate_breath_times\<close> gives.
\<close>

theorem count_apnea_counts_long_gaps:
  "apnea_scan bt = card {i. i + 1 < length bt \<and> bt ! (i + 1) - bt ! i > 10}
   \<and> (length bt \<le> 1 \<longrightarrow> apnea_scan bt = 0)
   \<and> apnea_scan [0, 5, 17, 20] = 1
   \<and> (calculate_breath_times find_peaks t_vs_flow = Inr bt \<longrightarrow>
        count_apnea find_peaks t_vs_flow =
          Inr (card {i. i + 1 < length bt \<and> bt ! (i + 1) - bt ! i > 10}))"
proof -
  have short: "length bt \<le> 1 \<longrightarrow> apnea_scan bt = 0"
    by (cases bt) (auto simp: apnea_scan_def)
  have ex: "apnea_scan [0, 5, 17, 20] = 1"
    by (simp add: apnea_scan_def upt_rec)
  have comp: "calculate_breath_times find_peaks t_vs_flow = Inr bt \<longrightarrow>
        count_apnea find_peaks t_vs_flow =
          Inr (card {i. i + 1 < length bt \<and> bt ! (i + 1) - bt ! i > 10})"
    by (simp add: count_apnea_def and_then_def apnea_scan_card)
  from apnea_scan_card short ex comp show ?thesis by blast
qed

text \<open>
  Claim C6. For time and flow sequences of equal length the leakage is 1000 times the sum of
  \<open>flow[i] * (time[i+1] - time[i])\<close> over all consecutive pairs; a negative total is returned
  as it is, together with the warning; a constant-zero flow gives exactly 0.
\<close>

theorem calculate_leakage_left_endpoint_sum:
  "(length time = length flow \<longrightarrow>
      calculate_leakage (time, flow) =
        (let total = 1000 * (\<Sum>i = 0..<length flow - 1. flow ! i * (time ! (i + 1) - time ! i))
         in Inr (total, if total < 0 then [Negative_leakage] else [])))
   \<and> (length time = n \<longrightarrow> calculate_leakage (time, replicate n 0) = Inr (0, []))"
proof -
  have main: "calculate_leakage (time, flow) =
        (let total = 1000 * (\<Sum>i = 0..<length flow - 1. flow ! i * (time ! (i + 1) - time ! i))
         in Inr (total, if total < 0 then [Negative_leakage] else []))"
    if len: "length time = length flow" for time flow :: "real list"
  proof -
    have rng: "\<forall>i\<in>set [0..<length flow - 1]. i < length flow \<and> i < length (diff time)"
      using len by (auto simp: length_diff)
    have "(\<Sum>i\<leftarrow>[0..<length flow - 1]. flow ! i * diff time ! i)
          = (\<Sum>i\<leftarrow>[0..<length flow - 1]. flow ! i * (time ! (i + 1) - time ! i))"
      using len by (intro arg_cong [where f = sum_list] map_cong) (auto simp: diff_nth)
    also have "\<dots> = (\<Sum>i = 0..<length flow - 1. flow ! i * (time ! (i + 1) - time ! i))"
      by (simp add: interv_sum_list_conv_sum_set_nat)
    finally show ?thesis
      using leakage_loop_sum [OF rng, of 0]
      by (simp add: calculate_leakage_def and_then_def Let_def mult.commute)
  qed
  have zero: "calculate_leakage (time, replicate n 0) = Inr (0, [])" if "length time = n"
    using main [of time "replicate n 0"] that by (simp add: Let_def)
  from main zero show ?thesis by blast
qed

theorem count_apnea_counts_long_gaps_witness:
  "apnea_scan [0, 5, 17, 20] = card {i. i + 1 < length [0, 5, 17, 20 :: real] \<and> [0, 5, 17, 20 :: real] ! (i + 1) - [0, 5, 17, 20] ! i > 10}
   \<and> apnea_scan [3] = 0
   \<and> apnea_scan [0, 5, 17, 20] = 1
   \<and> count_apnea (\<lambda>x h pro d. []) ([0, 1, 2, 3], [0, 0, 0, 0]) = Inr 0"
proof -
  have bt: "calculate_breath_times (\<lambda>x h pro d. []) ([0, 1, 2, 3], [0, 0, 0, 0]) = Inr []"
    by (simp add: calculate_breath_times_def count_breaths_def and_then_def)
  show ?thesis
    using count_apnea_counts_long_gaps [of "[0, 5, 17, 20]" "\<lambda>x h pro d. []" "([0, 1, 2, 3], [0, 0, 0, 0])"]
      count_apnea_counts_long_gaps [of "[3]" "\<lambda>x h pro d. []" "([0, 1, 2, 3], [0, 0, 0, 0])"]
      count_apnea_counts_long_gaps [of "[]" "\<lambda>x h pro d. []" "([0, 1, 2, 3], [0, 0, 0, 0])"] bt
    by simp
qed

theorem calculate_leakage_left_endpoint_sum_witness:
  "calculate_leakage ([0, 1, 3], [2, -4, 5]) = Inr (-6000, [Negative_leakage])
   \<and> calculate_leakage ([0, 1, 2, 3], replicate 4 0) = Inr (0, [])"
  using calculate_leakage_left_endpoint_sum [of "[0, 1, 3]" "[2, -4, 5]" 3]
    calculate_leakage_left_endpoint_sum [of "[0, 1, 2, 3]" "[0, 0, 0, 0]" 4]
  by (simp add: Let_def)

section \<open>Breath detection: the cycle-completion filter\<close>


lemma set_slice: "b \<le> length xs \<Longrightarrow> set (slice xs a b) = {xs ! k | k. a \<le> k \<and> k < b}"
proof (intro set_eqI iffI)
  fix v assume b: "b \<le> length xs" and "v \<in> set (slice xs a b)"
  then obtain i where "i < b - a" "v = xs ! (a + i)"
    by (auto simp: slice_def in_set_conv_nth)
  then show "v \<in> {xs ! k | k. a \<le> k \<and> k < b}"
    by (intro CollectI exI [of _ "a + i"]) auto
next
  fix v assume b: "b \<le> length xs" and "v \<in> {xs ! k | k. a \<le> k \<and> k < b}"
  then obtain k where k: "v = xs ! k" "a \<le> k" "k < b" by blast
  then have "k - a < length (slice xs a b)" "slice xs a b ! (k - a) = v"
    using b by (auto simp: slice_def)
  then show "v \<in> set (slice xs a b)" by (metis nth_mem)
qed

lemma cycle_check_in_range:
  assumes "p + 1 < length flow_data" "q \<le> length flow_data"
  shows "cycle_check flow_data p q = Inr (pair_accepted flow_data p q)"
proof -
  have z: "0 \<in> set (slice flow_data p q) \<longleftrightarrow> (\<exists>k\<in>{p..<q}. flow_data ! k = 0)"
    using assms(2) by (auto simp: set_slice)
  have n: "(\<exists>v\<in>set (slice flow_data p q). v < 0) \<longleftrightarrow> (\<exists>k\<in>{p..<q}. flow_data ! k < 0)"
    using assms(2) by (fastforce simp: set_slice)
  show ?thesis
    using assms(1) unfolding cycle_check_def Let_def z n
    by (simp add: and_then_def item_def pair_accepted_def)
qed

lemma validate_loop_filter:
  assumes "\<forall>i\<in>set js. peaks ! i + 1 < length flow_data \<and> peaks ! (i + 1) \<le> length flow_data"
  shows "validate_loop flow_data peaks js acc =
           Inr (acc @ map ((!) peaks) (filter (\<lambda>i. pair_accepted flow_data (peaks ! i) (peaks ! (i + 1))) js))"
  using assms by (induction js arbitrary: acc) (auto simp: and_then_def cycle_check_in_range)

lemma final_check_in_range:
  "0 \<in> set (slice flow_data p (length flow_data - 1)) \<longleftrightarrow> final_accepted flow_data p"
  by (auto simp: set_slice final_accepted_def)

lemma upt_butlast_peaks: "map ((!) peaks) [0..<length peaks - 1] = butlast peaks"
  by (rule nth_equalityI) (simp_all add: nth_butlast)

lemma count_breaths_characterised:
  assumes fp: "find_peaks flow_data h pro d = peaks"
    and inc: "sorted_wrt (<) peaks"
    and rng: "\<forall>p\<in>set peaks. p < length flow_data"
  shows "\<exists>valid_peaks.
      count_breaths find_peaks flow_data h pro d = Inr (valid_peaks, length valid_peaks)
      \<and> subseq valid_peaks peaks
      \<and> (\<forall>i. i + 1 < length peaks \<longrightarrow>
            (peaks ! i \<in> set valid_peaks \<longleftrightarrow> pair_accepted flow_data (peaks ! i) (peaks ! (i + 1))))
      \<and> (peaks \<noteq> [] \<longrightarrow>
            (last peaks \<in> set valid_peaks \<longleftrightarrow> final_accepted flow_data (last peaks)))"
proof (cases "peaks = []")
  case True
  with fp show ?thesis by (simp add: count_breaths_def)
next
  case False
  define n where "n = length peaks"
  define A where "A = (\<lambda>i. pair_accepted flow_data (peaks ! i) (peaks ! (i + 1)))"
  define front where "front = map ((!) peaks) (filter A [0..<n - 1])"
  define fin where "fin = (if final_accepted flow_data (last peaks) then [last peaks] else [])"
  have dist: "distinct peaks"
    using inc by (simp add: strict_sorted_iff)
  have n_pos: "0 < n" using False by (simp add: n_def)
  have step: "peaks ! i + 1 < length flow_data \<and> peaks ! (i + 1) \<le> length flow_data"
    if "i < n - 1" for i
  proof -
    have "peaks ! i < peaks ! (i + 1)"
      using inc that by (simp add: sorted_wrt_iff_nth_less n_def)
    moreover have "peaks ! (i + 1) < length flow_data"
      using rng that by (simp add: n_def)
    ultimately show ?thesis by simp
  qed
  then have loop: "validate_loop flow_data peaks [0..<n - 1] [] = Inr front"
    using validate_loop_filter [of "[0..<n - 1]" peaks flow_data "[]"]
    by (simp add: front_def A_def)
  have res: "count_breaths find_peaks flow_data h pro d = Inr (front @ fin, length (front @ fin))"
    using False loop unfolding count_breaths_def Let_def final_check_in_range fp n_def [symmetric]
    by (simp add: and_then_def fin_def n_def)
  have "subseq front (butlast peaks)"
    unfolding front_def upt_butlast_peaks [symmetric] n_def
    by (intro subseq_map subseq_filter_left)
  moreover have "subseq fin [last peaks]"
    by (simp add: fin_def)
  ultimately have "subseq (front @ fin) (butlast peaks @ [last peaks])"
    by (rule list_emb_append_mono)
  then have sub: "subseq (front @ fin) peaks"
    using False by simp
  have last_nth: "last peaks = peaks ! (n - 1)"
    using False by (simp add: last_conv_nth n_def)
  have front_mem: "peaks ! i \<in> set front \<longleftrightarrow> i < n - 1 \<and> A i" if "i < n" for i
  proof
    assume "peaks ! i \<in> set front"
    then obtain j where j: "j < n - 1" "A j" "peaks ! j = peaks ! i"
      by (auto simp: front_def)
    then have "j = i"
      using dist that by (simp add: nth_eq_iff_index_eq n_def)
    with j show "i < n - 1 \<and> A i" by simp
  next
    assume "i < n - 1 \<and> A i"
    then show "peaks ! i \<in> set front" by (auto simp: front_def)
  qed
  have fin_mem: "peaks ! i \<in> set fin \<longleftrightarrow> i = n - 1 \<and> final_accepted flow_data (last peaks)"
    if "i < n" for i
    using dist that n_pos by (auto simp: fin_def last_nth nth_eq_iff_index_eq n_def)
  have pairs: "\<forall>i. i + 1 < length peaks \<longrightarrow>
      (peaks ! i \<in> set (front @ fin) \<longleftrightarrow> pair_accepted flow_data (peaks ! i) (peaks ! (i + 1)))"
  proof (intro allI impI)
    fix i assume i: "i + 1 < length peaks"
    then have "i < n" "i < n - 1" "i \<noteq> n - 1" by (simp_all add: n_def)
    then show "peaks ! i \<in> set (front @ fin) \<longleftrightarrow> pair_accepted flow_data (peaks ! i) (peaks ! (i + 1))"
      using front_mem [of i] fin_mem [of i] by (simp add: A_def)
  qed
  have final: "last peaks \<in> set (front @ fin) \<longleftrightarrow> final_accepted flow_data (last peaks)"
    using front_mem [of "n - 1"] fin_mem [of "n - 1"] n_pos by (simp add: last_nth)
  from res sub pairs final show ?thesis by blast
qed

text \<open>
  Claim C1. Let the peak search return the strictly increasing positions \<open>peaks\<close> inside the
  flow sequence. Then \<^verbatim>\<open>count_breaths\<close> returns a list and its length, where: a peak with a
  successor is in the list exactly when the sample after it is nonzero and the window up to
  the next peak holds a zero or a negative sample; the final peak is in the list exactly when
  a zero sample lies in the window from it up to but excluding the last sample; the list is a
  subsequence of \<open>peaks\<close>, so the original order is kept.
\<close>

theorem count_breaths_cycle_completion_filter:
  assumes fp: "find_peaks flow_data h pro d = peaks"
    and inc: "sorted_wrt (<) peaks"
    and rng: "\<forall>p\<in>set peaks. p < length flow_data"
  shows "\<exists>valid_peaks.
      count_breaths find_peaks flow_data h pro d = Inr (valid_peaks, length valid_peaks)
      \<and> subseq valid_peaks peaks
      \<and> (\<forall>i. i + 1 < length peaks \<longrightarrow>
            (peaks ! i \<in> set valid_peaks \<longleftrightarrow> pair_accepted flow_data (peaks ! i) (peaks ! (i + 1))))
      \<and> (peaks \<noteq> [] \<longrightarrow>
            (last peaks \<in> set valid_peaks \<longleftrightarrow> final_accepted flow_data (last peaks)))"
  using fp inc rng by (rule count_breaths_characterised)

theorem count_breaths_cycle_completion_filter_witness:
  "\<exists>valid_peaks.
      count_breaths (\<lambda>x h pro d. [1, 4]) [0, 3, 1, 0, 2, 0, 1] default_h default_pro default_d
        = Inr (valid_peaks, length valid_peaks)
      \<and> subseq valid_peaks [1, 4] \<and> 1 \<in> set valid_peaks \<and> 4 \<in> set valid_peaks"
proof -
  let ?flow = "[0, 3, 1, 0, 2, 0, 1] :: real list"
  have inc: "sorted_wrt (<) [1, 4 :: nat]" by simp
  have rng: "\<forall>p\<in>set [1, 4 :: nat]. p < length ?flow" by simp
  have pair: "pair_accepted ?flow 1 4"
    unfolding pair_accepted_def by (intro conjI disjI1 bexI [of _ 3]) simp_all
  have final: "final_accepted ?flow 4"
    unfolding final_accepted_def by (intro bexI [of _ 5]) simp_all
  from count_breaths_cycle_completion_filter
    [of "\<lambda>x h pro d. [1, 4]" ?flow default_h default_pro default_d "[1, 4]", OF refl inc rng]
  obtain v where v: "count_breaths (\<lambda>x h pro d. [1, 4]) ?flow default_h default_pro default_d = Inr (v, length v)"
    "subseq v [1, 4]"
    "\<forall>i. i + 1 < length [1, 4 :: nat] \<longrightarrow> ([1, 4] ! i \<in> set v \<longleftrightarrow> pair_accepted ?flow ([1, 4] ! i) ([1, 4] ! (i + 1)))"
    "last [1, 4] \<in> set v \<longleftrightarrow> final_accepted ?flow (last [1, 4])"
    by auto
  from v(3) [rule_format, of 0] pair have "1 \<in> set v" by simp
  moreover from v(4) final have "4 \<in> set v" by simp
  ultimately show ?thesis using v(1,2) by blast
qed

section \<open>Record loader and flow computation: properties\<close>

lemmas decimal_defs = decimal_int_def decimal_float_def unsigned_part_def sign_of_def
  is_digit_def digits_value_def

lemma decimal_float_values:
  "decimal_float ''0.1'' = Some (1 / 10)" "decimal_float ''0.2'' = Some (2 / 10)"
  "decimal_float ''0.3'' = Some (3 / 10)" "decimal_float ''0.4'' = Some (4 / 10)"
  "decimal_float ''4.5'' = Some (45 / 10)" "decimal_float ''0'' = Some 0"
  "decimal_float ''1640'' = Some 1640" "decimal_float ''1650'' = Some 1650"
  "decimal_float ''1700'' = Some 1700" "decimal_float ''1800'' = Some 1800"
  "decimal_float ''1900'' = Some 1900" "decimal_float ''x'' = None"
  by (simp_all add: decimal_defs)

lemma decimal_int_values:
  "decimal_int ''4.5'' = None"
  "decimal_int ''1640'' = Some 1640" "decimal_int ''1650'' = Some 1650"
  "decimal_int ''1700'' = Some 1700" "decimal_int ''1800'' = Some 1800"
  "decimal_int ''1900'' = Some 1900"
  by (simp_all add: decimal_defs)

lemma check_tokens_verdict:
  "fst (check_tokens to_float line patient toks) \<longleftrightarrow> (\<forall>t\<in>set toks. to_float t \<noteq> None \<and> t \<noteq> ''NaN'')"
  by (induction toks) (auto split: option.splits)

lemma is_correct_data_verdict:
  "fst (is_correct_data to_float line patient) \<longleftrightarrow> record_accepted to_float patient"
  by (simp add: is_correct_data_def record_accepted_def check_tokens_verdict)

lemma load_loop_filter:
  "fst (load_loop to_float i lines valid_data logged) =
     valid_data @ filter (record_accepted to_float) (map (\<lambda>line. split_comma (strip_newlines line)) lines)"
  by (induction lines arbitrary: i valid_data logged) (simp_all add: Let_def is_correct_data_verdict)

text \<open>
  Claim C2, as amended. When the file cannot be opened the load raises OSError. Otherwise
  \<^verbatim>\<open>load_patient\<close> returns the token list of the header line first, followed by exactly
  those later lines, in their original order, whose token list has 7 tokens, all accepted by
  \<^verbatim>\<open>float\<close> and none equal to \<^verbatim>\<open>NaN\<close>; a rejected line never ends the load.
\<close>

theorem load_patient_header_then_accepted_records:
  "(files path = None \<longrightarrow> load_patient to_float files path = Inl OSError)
   \<and> (files path = Some content \<longrightarrow>
        (\<exists>logged. load_patient to_float files path =
           Inr (split_comma (strip_newlines (case lines_of content of [] \<Rightarrow> [] | l # ls \<Rightarrow> l))
                # filter (record_accepted to_float)
                    (map (\<lambda>line. split_comma (strip_newlines line)) (tl (lines_of content))),
                logged)))"
proof -
  have "\<exists>logged. load_loop to_float 0 rest [keys] [] =
          (keys # filter (record_accepted to_float) (map (\<lambda>line. split_comma (strip_newlines line)) rest), logged)"
    for keys rest
    using load_loop_filter [of to_float 0 rest "[keys]" "[]"]
    by (cases "load_loop to_float 0 rest [keys] []") simp
  then show ?thesis
    by (simp add: load_patient_def Let_def)
qed

lemma sample_lines:
  "lines_of sample_file =
     [''t,p2,pins,pexp,a,b,c\<newline>'', ''0.1,1700,1800,1650,0,0,0\<newline>'',
      ''0.2,1700,1800,1650,0,0\<newline>'', ''0.3,1700,x,1650,0,0,0\<newline>'',
      ''0.4,1700,1640,1900,0,0,0\<newline>'']"
  by (simp add: sample_file_def)

lemma sample_tokens:
  "split_comma (strip_newlines (''t,p2,pins,pexp,a,b,c\<newline>'')) = [''t'', ''p2'', ''pins'', ''pexp'', ''a'', ''b'', ''c'']"
  "split_comma (strip_newlines (''0.1,1700,1800,1650,0,0,0\<newline>'')) = [''0.1'', ''1700'', ''1800'', ''1650'', ''0'', ''0'', ''0'']"
  "split_comma (strip_newlines (''0.2,1700,1800,1650,0,0\<newline>'')) = [''0.2'', ''1700'', ''1800'', ''1650'', ''0'', ''0'']"
  "split_comma (strip_newlines (''0.3,1700,x,1650,0,0,0\<newline>'')) = [''0.3'', ''1700'', ''x'', ''1650'', ''0'', ''0'', ''0'']"
  "split_comma (strip_newlines (''0.4,1700,1640,1900,0,0,0\<newline>'')) = [''0.4'', ''1700'', ''1640'', ''1900'', ''0'', ''0'', ''0'']"
  by (simp_all add: strip_newlines_def)

lemma sample_accepted:
  "record_accepted decimal_float [''0.1'', ''1700'', ''1800'', ''1650'', ''0'', ''0'', ''0'']"
  "\<not> record_accepted decimal_float [''0.2'', ''1700'', ''1800'', ''1650'', ''0'', ''0'']"
  "\<not> record_accepted decimal_float [''0.3'', ''1700'', ''x'', ''1650'', ''0'', ''0'', ''0'']"
  "record_accepted decimal_float [''0.4'', ''1700'', ''1640'', ''1900'', ''0'', ''0'', ''0'']"
  "record_accepted decimal_float [''0.1'', ''1900'', ''1800'', ''1650'', ''0'', ''0'', ''0'']"
  "record_accepted decimal_float [''0.2'', ''1900'', ''1800'', ''1650'', ''0'', ''0'', ''0'']"
  "record_accepted decimal_float [''0.1'', ''4.5'', ''1800'', ''1650'', ''0'', ''0'', ''0'']"
  by (simp_all add: record_accepted_def decimal_float_values del: not_None_eq)

lemma sample_load:
  "load_patient decimal_float [''patient_01.txt'' \<mapsto> sample_file] ''patient_01.txt'' =
     Inr ([[''t'', ''p2'', ''pins'', ''pexp'', ''a'', ''b'', ''c''],
           [''0.1'', ''1700'', ''1800'', ''1650'', ''0'', ''0'', ''0''],
           [''0.4'', ''1700'', ''1640'', ''1900'', ''0'', ''0'', ''0'']],
          [Missing_value 3 [''0.2'', ''1700'', ''1800'', ''1650'', ''0'', ''0''],
           Non_numeric 4 [''0.3'', ''1700'', ''x'', ''1650'', ''0'', ''0'', ''0'']])"
  by (simp add: load_patient_def sample_lines sample_tokens Let_def is_correct_data_def decimal_float_values)

lemma area_ratio:
  "(pi * ((15 * (1 / 10 ^ 3) / 2) ^ 2) / (pi * ((12 * (1 / 10 ^ 3)) / 2) ^ 2)) ^ 2 - 1 = (369 / 256 :: real)"
  by (simp add: power2_eq_square)

lemma flow_calculation_cases:
  "flow_calculation p1 p2 = (if p1 < p2 then Inl ValueError else Inr (orifice_flow p1 p2))"
proof -
  have "(2 / 1.199) * (p1 - p2) / (369 / 256 :: real) < 0 \<longleftrightarrow> p1 < p2"
    by (simp add: field_simps)
  then show ?thesis
    unfolding flow_calculation_def orifice_flow_def Let_def area_ratio
    by (simp add: power2_eq_square)
qed

lemma orifice_flow_nonneg: "p2 \<le> p1 \<Longrightarrow> 0 \<le> orifice_flow p1 p2"
proof -
  assume le: "p2 \<le> p1"
  have k: "(pi * ((15 / 1000) / 2) ^ 2 / (pi * ((12 / 1000) / 2) ^ 2)) ^ 2 - 1 = (369 / 256 :: real)"
    by (simp add: power2_eq_square)
  have "0 \<le> (2 / 1.199) * (p1 - p2) / (369 / 256 :: real)"
    using le by simp
  then show ?thesis
    unfolding orifice_flow_def Let_def k by (intro mult_nonneg_nonneg) simp_all
qed

lemma flow_row_parsed:
  assumes "3 < length row" "to_float (row ! 0) = Some t" "to_int (row ! 1) = Some c2"
    "to_int (row ! 2) = Some ci" "to_int (row ! 3) = Some ce"
  shows "flow_row to_float to_int row =
     (if ADC_to_pascal ci \<ge> ADC_to_pascal ce
      then (if ADC_to_pascal ci < ADC_to_pascal c2 then Inl ValueError
            else Inr (t, orifice_flow (ADC_to_pascal ci) (ADC_to_pascal c2)))
      else (if ADC_to_pascal ce < ADC_to_pascal c2 then Inl ValueError
            else Inr (t, - orifice_flow (ADC_to_pascal ce) (ADC_to_pascal c2))))"
proof -
  from assms(1) have "row \<noteq> []" by auto
  with assms show ?thesis
    by (simp add: flow_row_def and_then_def item_def py_float_def py_int_def Let_def flow_calculation_cases)
qed

lemma flow_row_error_class:
  assumes "record_accepted to_float row" "flow_row to_float to_int row = Inl e"
  shows "e = ValueError"
proof -
  from assms(1) have len: "length row = 7" and "\<forall>t\<in>set row. to_float t \<noteq> None"
    by (auto simp: record_accepted_def)
  then have "to_float (row ! 0) \<noteq> None" by simp
  then obtain t where t: "to_float (row ! 0) = Some t" by blast
  show ?thesis
    using assms(2) len t
    by (auto simp: flow_row_def and_then_def item_def py_float_def py_int_def Let_def
        flow_calculation_cases split: option.splits if_splits sum.splits)
qed

lemma flow_row_not_int:
  assumes "record_accepted to_float row"
    and "to_int (row ! 1) = None \<or> to_int (row ! 2) = None \<or> to_int (row ! 3) = None"
  shows "flow_row to_float to_int row = Inl ValueError"
proof -
  from assms(1) have len: "length row = 7" and "\<forall>t\<in>set row. to_float t \<noteq> None"
    by (auto simp: record_accepted_def)
  then have "to_float (row ! 0) \<noteq> None" by simp
  then obtain t where t: "to_float (row ! 0) = Some t" by blast
  show ?thesis
    using assms(2) len t
    by (auto simp: flow_row_def and_then_def item_def py_float_def py_int_def split: option.splits)
qed

lemma flow_loop_all_ok:
  "\<forall>row\<in>set rows. \<exists>tq. flow_row to_float to_int row = Inr tq \<Longrightarrow>
   flow_loop to_float to_int rows time flow_data =
     Inr (time @ map (\<lambda>row. fst (projr (flow_row to_float to_int row))) rows,
          flow_data @ map (\<lambda>row. snd (projr (flow_row to_float to_int row))) rows)"
  by (induction rows arbitrary: time flow_data) (auto simp: and_then_def)

lemma flow_loop_fails:
  "row \<in> set rows \<Longrightarrow> flow_row to_float to_int row = Inl e \<Longrightarrow>
   \<forall>r\<in>set rows. \<forall>e'. flow_row to_float to_int r = Inl e' \<longrightarrow> e' = ValueError \<Longrightarrow>
   flow_loop to_float to_int rows time flow_data = Inl ValueError"
proof (induction rows arbitrary: time flow_data)
  case Nil
  then show ?case by simp
next
  case (Cons r rows)
  show ?case
  proof (cases "flow_row to_float to_int r")
    case (Inl e')
    with Cons.prems(3) have "e' = ValueError" by simp
    with Inl show ?thesis by (simp add: and_then_def)
  next
    case (Inr tq)
    with Cons.prems have "row \<in> set rows" by auto
    with Cons.IH Cons.prems Inr show ?thesis by (simp add: and_then_def)
  qed
qed

lemma loaded_rows_accepted:
  assumes "load_patient to_float files path = Inr (valid_data, logged)" "row \<in> set (drop 1 valid_data)"
  shows "record_accepted to_float row"
proof -
  from assms(1) obtain content where c: "files path = Some content"
    by (auto simp: load_patient_def split: option.splits)
  define keys where "keys = split_comma (strip_newlines (case lines_of content of [] \<Rightarrow> [] | l # ls \<Rightarrow> l))"
  from assms(1) c have "valid_data = fst (load_loop to_float 0 (tl (lines_of content)) [keys] [])"
    by (simp add: load_patient_def Let_def keys_def)
  then have "drop 1 valid_data = filter (record_accepted to_float)
      (map (\<lambda>line. split_comma (strip_newlines line)) (tl (lines_of content)))"
    by (simp add: load_loop_filter)
  with assms(2) show ?thesis by simp
qed

lemma flow_analysis_fails:
  assumes "load_patient to_float files path = Inr (valid_data, logged)"
    "row \<in> set (drop 1 valid_data)" "flow_row to_float to_int row = Inl e"
  shows "flow_analysis to_float to_int files path = Inl ValueError"
proof -
  have "\<forall>r\<in>set (drop 1 valid_data). \<forall>e'. flow_row to_float to_int r = Inl e' \<longrightarrow> e' = ValueError"
    using loaded_rows_accepted [OF assms(1)] flow_row_error_class by blast
  from flow_loop_fails [OF assms(2,3) this]
  show ?thesis using assms(1) by (simp add: flow_analysis_def and_then_def)
qed

lemma flow_analysis_all_ok:
  assumes "load_patient to_float files path = Inr (valid_data, logged)"
    "\<forall>row\<in>set (drop 1 valid_data). \<exists>tq. flow_row to_float to_int row = Inr tq"
  shows "flow_analysis to_float to_int files path =
     Inr ((map (\<lambda>row. fst (projr (flow_row to_float to_int row))) (drop 1 valid_data),
           map (\<lambda>row. snd (projr (flow_row to_float to_int row))) (drop 1 valid_data)),
          Starting_analysis path # logged)"
  using assms(1) flow_loop_all_ok [OF assms(2), of "[]" "[]"]
  by (simp add: flow_analysis_def and_then_def)

theorem load_patient_header_then_accepted_records_witness:
  "load_patient decimal_float Map.empty ''patient_01.txt'' = Inl OSError
   \<and> (\<exists>logged. load_patient decimal_float [''patient_01.txt'' \<mapsto> sample_file] ''patient_01.txt'' =
         Inr ([[''t'', ''p2'', ''pins'', ''pexp'', ''a'', ''b'', ''c''],
               [''0.1'', ''1700'', ''1800'', ''1650'', ''0'', ''0'', ''0''],
               [''0.4'', ''1700'', ''1640'', ''1900'', ''0'', ''0'', ''0'']], logged))"
  using load_patient_header_then_accepted_records
      [of Map.empty "''patient_01.txt''" decimal_float sample_file]
    load_patient_header_then_accepted_records
      [of "[''patient_01.txt'' \<mapsto> sample_file]" "''patient_01.txt''" decimal_float sample_file]
  by (simp add: sample_lines sample_tokens sample_accepted)

text \<open>
  Claim C2 as stated fails: the returned list starts with the header, so it is not the list of
  the accepted records.
\<close>

theorem load_patient_header_excluded_counterexample:
  "load_patient decimal_float [''patient_01.txt'' \<mapsto> sample_file] ''patient_01.txt'' =
     Inr ([[''t'', ''p2'', ''pins'', ''pexp'', ''a'', ''b'', ''c''],
           [''0.1'', ''1700'', ''1800'', ''1650'', ''0'', ''0'', ''0''],
           [''0.4'', ''1700'', ''1640'', ''1900'', ''0'', ''0'', ''0'']],
          [Missing_value 3 [''0.2'', ''1700'', ''1800'', ''1650'', ''0'', ''0''],
           Non_numeric 4 [''0.3'', ''1700'', ''x'', ''1650'', ''0'', ''0'', ''0'']])
   \<and> filter (record_accepted decimal_float)
         (map (\<lambda>line. split_comma (strip_newlines line)) (tl (lines_of sample_file))) =
       [[''0.1'', ''1700'', ''1800'', ''1650'', ''0'', ''0'', ''0''],
        [''0.4'', ''1700'', ''1640'', ''1900'', ''0'', ''0'', ''0'']]"
  by (simp add: sample_load sample_lines sample_tokens sample_accepted)

text \<open>
  Claim C3. For an accepted record whose ADC tokens are integers and whose selected upstream
  pressure is not below the constriction pressure, the flow is the orifice equation of the
  inspiratory pressure when that is at least the expiratory pressure (and is not negative),
  and the negated orifice equation of the expiratory pressure otherwise (and is not
  positive). \<^verbatim>\<open>flow_analysis\<close> returns, in the order of the records, the times and flows so
  computed when every record yields one.
\<close>

theorem flow_analysis_orifice_equation:
  "(length row = 7 \<and> to_float (row ! 0) = Some t \<and> to_int (row ! 1) = Some c2
      \<and> to_int (row ! 2) = Some ci \<and> to_int (row ! 3) = Some ce
      \<and> p2 = ADC_to_pascal c2 \<and> p_ins = ADC_to_pascal ci \<and> p_exp = ADC_to_pascal ce \<longrightarrow>
      (p_exp \<le> p_ins \<and> p2 \<le> p_ins \<longrightarrow>
         flow_row to_float to_int row = Inr (t, orifice_flow p_ins p2) \<and> 0 \<le> orifice_flow p_ins p2)
      \<and> (p_ins < p_exp \<and> p2 \<le> p_exp \<longrightarrow>
         flow_row to_float to_int row = Inr (t, - orifice_flow p_exp p2) \<and> - orifice_flow p_exp p2 \<le> 0))
   \<and> (load_patient to_float files path = Inr (valid_data, logged)
      \<and> (\<forall>r\<in>set (drop 1 valid_data). \<exists>tq. flow_row to_float to_int r = Inr tq) \<longrightarrow>
      flow_analysis to_float to_int files path =
        Inr ((map (\<lambda>r. fst (projr (flow_row to_float to_int r))) (drop 1 valid_data),
              map (\<lambda>r. snd (projr (flow_row to_float to_int r))) (drop 1 valid_data)),
             Starting_analysis path # logged))"
proof -
  have rec: "(p_exp \<le> p_ins \<and> p2 \<le> p_ins \<longrightarrow>
         flow_row to_float to_int row = Inr (t, orifice_flow p_ins p2) \<and> 0 \<le> orifice_flow p_ins p2)
      \<and> (p_ins < p_exp \<and> p2 \<le> p_exp \<longrightarrow>
         flow_row to_float to_int row = Inr (t, - orifice_flow p_exp p2) \<and> - orifice_flow p_exp p2 \<le> 0)"
    if "length row = 7" "to_float (row ! 0) = Some t" "to_int (row ! 1) = Some c2"
      "to_int (row ! 2) = Some ci" "to_int (row ! 3) = Some ce"
      "p2 = ADC_to_pascal c2" "p_ins = ADC_to_pascal ci" "p_exp = ADC_to_pascal ce"
  proof -
    have "3 < length row" using that(1) by simp
    with flow_row_parsed [of row to_float t to_int c2 ci ce] that show ?thesis
      by (auto simp: orifice_flow_nonneg)
  qed
  from rec flow_analysis_all_ok show ?thesis by blast
qed

text \<open>
  Claim C4, as amended. For a record whose selected upstream pressure is below the
  constriction pressure the flow computation raises ValueError, and \<^verbatim>\<open>flow_analysis\<close>
  raises ValueError as soon as one accepted record raises: no flow list is returned, so no
  complex or not-a-number flow. The exception does not name the record.
\<close>

theorem flow_domain_error_is_value_error:
  "(length row = 7 \<and> to_float (row ! 0) = Some t \<and> to_int (row ! 1) = Some c2
      \<and> to_int (row ! 2) = Some ci \<and> to_int (row ! 3) = Some ce
      \<and> p2 = ADC_to_pascal c2 \<and> p_ins = ADC_to_pascal ci \<and> p_exp = ADC_to_pascal ce
      \<and> (if p_ins \<ge> p_exp then p_ins else p_exp) < p2 \<longrightarrow>
      flow_row to_float to_int row = Inl ValueError)
   \<and> (load_patient to_float files path = Inr (valid_data, logged)
      \<and> r \<in> set (drop 1 valid_data) \<and> flow_row to_float to_int r = Inl e \<longrightarrow>
      flow_analysis to_float to_int files path = Inl ValueError)"
proof -
  have rec: "flow_row to_float to_int row = Inl ValueError"
    if "length row = 7" "to_float (row ! 0) = Some t" "to_int (row ! 1) = Some c2"
      "to_int (row ! 2) = Some ci" "to_int (row ! 3) = Some ce"
      "p2 = ADC_to_pascal c2" "p_ins = ADC_to_pascal ci" "p_exp = ADC_to_pascal ce"
      "(if p_ins \<ge> p_exp then p_ins else p_exp) < p2"
  proof -
    have "3 < length row" using that(1) by simp
    with flow_row_parsed [of row to_float t to_int c2 ci ce] that show ?thesis
      by (auto split: if_splits)
  qed
  from rec flow_analysis_fails show ?thesis by blast
qed

text \<open>
  Claim C10. A row that passes the validation and has an ADC field that \<^verbatim>\<open>int\<close> rejects
  (such as \<^verbatim>\<open>4.5\<close>, which \<^verbatim>\<open>float\<close> accepts) makes the loop body and \<^verbatim>\<open>flow_analysis\<close>
  raise ValueError.
\<close>

theorem validated_row_fails_int_conversion:
  "record_accepted to_float row
   \<and> (to_int (row ! 1) = None \<or> to_int (row ! 2) = None \<or> to_int (row ! 3) = None) \<longrightarrow>
     fst (is_correct_data to_float line row)
     \<and> flow_row to_float to_int row = Inl ValueError
     \<and> (load_patient to_float files path = Inr (valid_data, logged) \<and> row \<in> set (drop 1 valid_data) \<longrightarrow>
          flow_analysis to_float to_int files path = Inl ValueError)"
  using flow_row_not_int [of to_float row to_int] flow_analysis_fails [of to_float files path valid_data logged row to_int ValueError]
  by (auto simp: is_correct_data_verdict)

lemma pressure_order:
  "ADC_to_pascal 1650 \<le> ADC_to_pascal 1800" "ADC_to_pascal 1700 \<le> ADC_to_pascal 1800"
  "ADC_to_pascal 1640 < ADC_to_pascal 1900" "ADC_to_pascal 1700 \<le> ADC_to_pascal 1900"
  "ADC_to_pascal 1800 < ADC_to_pascal 1900"
  by (simp_all add: ADC_to_pascal_def)

lemma domain_load:
  "load_patient decimal_float [''a.txt'' \<mapsto> domain_file_a] ''a.txt'' =
     Inr ([[''t'', ''p2'', ''pins'', ''pexp'', ''a'', ''b'', ''c''],
           [''0.1'', ''1900'', ''1800'', ''1650'', ''0'', ''0'', ''0'']], [])"
  "load_patient decimal_float [''b.txt'' \<mapsto> domain_file_b] ''b.txt'' =
     Inr ([[''t'', ''p2'', ''pins'', ''pexp'', ''a'', ''b'', ''c''],
           [''0.1'', ''1700'', ''1800'', ''1650'', ''0'', ''0'', ''0''],
           [''0.2'', ''1900'', ''1800'', ''1650'', ''0'', ''0'', ''0'']], [])"
  "load_patient decimal_float [''c.txt'' \<mapsto> fractional_file] ''c.txt'' =
     Inr ([[''t'', ''p2'', ''pins'', ''pexp'', ''a'', ''b'', ''c''],
           [''0.1'', ''4.5'', ''1800'', ''1650'', ''0'', ''0'', ''0'']], [])"
  by (simp_all add: load_patient_def domain_file_a_def domain_file_b_def fractional_file_def
      strip_newlines_def Let_def is_correct_data_def decimal_float_values)

lemma sample_flow_rows:
  "flow_row decimal_float decimal_int [''0.1'', ''1700'', ''1800'', ''1650'', ''0'', ''0'', ''0'']
     = Inr (1 / 10, orifice_flow (ADC_to_pascal 1800) (ADC_to_pascal 1700))"
  "flow_row decimal_float decimal_int [''0.1'', ''1900'', ''1800'', ''1650'', ''0'', ''0'', ''0'']
     = Inl ValueError"
  "flow_row decimal_float decimal_int [''0.2'', ''1900'', ''1800'', ''1650'', ''0'', ''0'', ''0'']
     = Inl ValueError"
  using pressure_order
  by (simp_all add: flow_row_parsed [where t = "1 / 10" and ?c2.0 = 1700 and ci = 1800 and ce = 1650]
      flow_row_parsed [where t = "1 / 10" and ?c2.0 = 1900 and ci = 1800 and ce = 1650]
      flow_row_parsed [where t = "2 / 10" and ?c2.0 = 1900 and ci = 1800 and ce = 1650]
      decimal_float_values decimal_int_values)

theorem flow_analysis_orifice_equation_witness:
  "flow_row decimal_float decimal_int [''0.1'', ''1700'', ''1800'', ''1650'', ''0'', ''0'', ''0'']
     = Inr (1 / 10, orifice_flow (ADC_to_pascal 1800) (ADC_to_pascal 1700))
   \<and> 0 \<le> orifice_flow (ADC_to_pascal 1800) (ADC_to_pascal 1700)
   \<and> flow_row decimal_float decimal_int [''0.4'', ''1700'', ''1640'', ''1900'', ''0'', ''0'', ''0'']
     = Inr (4 / 10, - orifice_flow (ADC_to_pascal 1900) (ADC_to_pascal 1700))
   \<and> - orifice_flow (ADC_to_pascal 1900) (ADC_to_pascal 1700) \<le> 0
   \<and> flow_analysis decimal_float decimal_int [''patient_01.txt'' \<mapsto> sample_file] ''patient_01.txt''
     = Inr (([1 / 10, 4 / 10],
             [orifice_flow (ADC_to_pascal 1800) (ADC_to_pascal 1700),
              - orifice_flow (ADC_to_pascal 1900) (ADC_to_pascal 1700)]),
            [Starting_analysis ''patient_01.txt'',
             Missing_value 3 [''0.2'', ''1700'', ''1800'', ''1650'', ''0'', ''0''],
             Non_numeric 4 [''0.3'', ''1700'', ''x'', ''1650'', ''0'', ''0'', ''0'']])"
proof -
  let ?r1 = "[''0.1'', ''1700'', ''1800'', ''1650'', ''0'', ''0'', ''0'']"
  let ?r4 = "[''0.4'', ''1700'', ''1640'', ''1900'', ''0'', ''0'', ''0'']"
  let ?vd = "[[''t'', ''p2'', ''pins'', ''pexp'', ''a'', ''b'', ''c''], ?r1, ?r4]"
  let ?lg = "[Missing_value 3 [''0.2'', ''1700'', ''1800'', ''1650'', ''0'', ''0''],
              Non_numeric 4 [''0.3'', ''1700'', ''x'', ''1650'', ''0'', ''0'', ''0'']]"
  note th = flow_analysis_orifice_equation [where to_float = decimal_float and to_int = decimal_int
      and files = "[''patient_01.txt'' \<mapsto> sample_file]" and path = "''patient_01.txt''"
      and valid_data = ?vd and logged = ?lg]
  have a: "flow_row decimal_float decimal_int ?r1
        = Inr (1 / 10, orifice_flow (ADC_to_pascal 1800) (ADC_to_pascal 1700))
      \<and> 0 \<le> orifice_flow (ADC_to_pascal 1800) (ADC_to_pascal 1700)"
    using th [where row = ?r1 and t = "1 / 10" and ?c2.0 = 1700 and ci = 1800 and ce = 1650
        and ?p2.0 = "ADC_to_pascal 1700" and p_ins = "ADC_to_pascal 1800" and p_exp = "ADC_to_pascal 1650"]
      pressure_order
    by (simp add: decimal_float_values decimal_int_values)
  have b: "flow_row decimal_float decimal_int ?r4
        = Inr (4 / 10, - orifice_flow (ADC_to_pascal 1900) (ADC_to_pascal 1700))
      \<and> - orifice_flow (ADC_to_pascal 1900) (ADC_to_pascal 1700) \<le> 0"
    using th [where row = ?r4 and t = "4 / 10" and ?c2.0 = 1700 and ci = 1640 and ce = 1900
        and ?p2.0 = "ADC_to_pascal 1700" and p_ins = "ADC_to_pascal 1640" and p_exp = "ADC_to_pascal 1900"]
      pressure_order
    by (simp add: decimal_float_values decimal_int_values)
  have c: "flow_analysis decimal_float decimal_int [''patient_01.txt'' \<mapsto> sample_file] ''patient_01.txt''
     = Inr (([1 / 10, 4 / 10],
             [orifice_flow (ADC_to_pascal 1800) (ADC_to_pascal 1700),
              - orifice_flow (ADC_to_pascal 1900) (ADC_to_pascal 1700)]),
            Starting_analysis ''patient_01.txt'' # ?lg)"
  proof -
    have "\<exists>tq. flow_row decimal_float decimal_int ?r1 = Inr tq"
      "\<exists>tq. flow_row decimal_float decimal_int ?r4 = Inr tq"
      using a b by blast+
    then have ok: "\<forall>r\<in>set (drop 1 ?vd). \<exists>tq. flow_row decimal_float decimal_int r = Inr tq"
      by simp
    from th [THEN conjunct2] sample_load ok
    have "flow_analysis decimal_float decimal_int [''patient_01.txt'' \<mapsto> sample_file] ''patient_01.txt'' =
        Inr ((map (\<lambda>r. fst (projr (flow_row decimal_float decimal_int r))) (drop 1 ?vd),
              map (\<lambda>r. snd (projr (flow_row decimal_float decimal_int r))) (drop 1 ?vd)),
             Starting_analysis ''patient_01.txt'' # ?lg)"
      by blast
    then show ?thesis by (simp add: a b)
  qed
  from a b c show ?thesis by simp
qed

theorem flow_domain_error_is_value_error_witness:
  "flow_row decimal_float decimal_int [''0.2'', ''1900'', ''1800'', ''1650'', ''0'', ''0'', ''0'']
     = Inl ValueError
   \<and> flow_analysis decimal_float decimal_int [''b.txt'' \<mapsto> domain_file_b] ''b.txt'' = Inl ValueError"
proof -
  let ?r = "[''0.2'', ''1900'', ''1800'', ''1650'', ''0'', ''0'', ''0'']"
  note th = flow_domain_error_is_value_error [where to_float = decimal_float and to_int = decimal_int
      and files = "[''b.txt'' \<mapsto> domain_file_b]" and path = "''b.txt''"
      and valid_data = "[[''t'', ''p2'', ''pins'', ''pexp'', ''a'', ''b'', ''c''],
           [''0.1'', ''1700'', ''1800'', ''1650'', ''0'', ''0'', ''0''], ?r]" and logged = "[]"
      and row = ?r and t = "2 / 10" and ?c2.0 = 1900 and ci = 1800 and ce = 1650
      and ?p2.0 = "ADC_to_pascal 1900" and p_ins = "ADC_to_pascal 1800" and p_exp = "ADC_to_pascal 1650"
      and r = ?r and e = ValueError]
  have a: "flow_row decimal_float decimal_int ?r = Inl ValueError"
    using th pressure_order by (simp add: decimal_float_values decimal_int_values)
  have b: "flow_analysis decimal_float decimal_int [''b.txt'' \<mapsto> domain_file_b] ''b.txt'' = Inl ValueError"
    using th [THEN conjunct2] a by (simp add: domain_load)
  from a b show ?thesis by simp
qed

text \<open>
  Claim C4 as stated fails: the error does not identify the record. In the first file the
  first record has the negative radicand, in the second file the second record; both runs
  end in the same exception.
\<close>

theorem flow_domain_error_names_no_record_counterexample:
  "load_patient decimal_float [''a.txt'' \<mapsto> domain_file_a] ''a.txt'' =
     Inr ([[''t'', ''p2'', ''pins'', ''pexp'', ''a'', ''b'', ''c''],
           [''0.1'', ''1900'', ''1800'', ''1650'', ''0'', ''0'', ''0'']], [])
   \<and> flow_row decimal_float decimal_int [''0.1'', ''1900'', ''1800'', ''1650'', ''0'', ''0'', ''0'']
       = Inl ValueError
   \<and> flow_analysis decimal_float decimal_int [''a.txt'' \<mapsto> domain_file_a] ''a.txt'' = Inl ValueError
   \<and> load_patient decimal_float [''b.txt'' \<mapsto> domain_file_b] ''b.txt'' =
     Inr ([[''t'', ''p2'', ''pins'', ''pexp'', ''a'', ''b'', ''c''],
           [''0.1'', ''1700'', ''1800'', ''1650'', ''0'', ''0'', ''0''],
           [''0.2'', ''1900'', ''1800'', ''1650'', ''0'', ''0'', ''0'']], [])
   \<and> flow_row decimal_float decimal_int [''0.1'', ''1700'', ''1800'', ''1650'', ''0'', ''0'', ''0'']
       = Inr (1 / 10, orifice_flow (ADC_to_pascal 1800) (ADC_to_pascal 1700))
   \<and> flow_row decimal_float decimal_int [''0.2'', ''1900'', ''1800'', ''1650'', ''0'', ''0'', ''0'']
       = Inl ValueError
   \<and> flow_analysis decimal_float decimal_int [''b.txt'' \<mapsto> domain_file_b] ''b.txt'' = Inl ValueError"
proof -
  have a: "flow_analysis decimal_float decimal_int [''a.txt'' \<mapsto> domain_file_a] ''a.txt'' = Inl ValueError"
    by (rule flow_analysis_fails [OF domain_load(1) _ sample_flow_rows(2)]) simp
  have b: "flow_analysis decimal_float decimal_int [''b.txt'' \<mapsto> domain_file_b] ''b.txt'' = Inl ValueError"
    by (rule flow_analysis_fails [OF domain_load(2) _ sample_flow_rows(3)]) simp
  from a b domain_load sample_flow_rows show ?thesis by simp
qed

theorem validated_row_fails_int_conversion_witness:
  "decimal_float ''4.5'' = Some (45 / 10) \<and> decimal_int ''4.5'' = None
   \<and> fst (is_correct_data decimal_float 2 [''0.1'', ''4.5'', ''1800'', ''1650'', ''0'', ''0'', ''0''])
   \<and> flow_row decimal_float decimal_int [''0.1'', ''4.5'', ''1800'', ''1650'', ''0'', ''0'', ''0'']
       = Inl ValueError
   \<and> flow_analysis decimal_float decimal_int [''c.txt'' \<mapsto> fractional_file] ''c.txt'' = Inl ValueError"
  using validated_row_fails_int_conversion [where to_float = decimal_float and to_int = decimal_int
      and row = "[''0.1'', ''4.5'', ''1800'', ''1650'', ''0'', ''0'', ''0'']" and line = 2
      and files = "[''c.txt'' \<mapsto> fractional_file]" and path = "''c.txt''"
      and valid_data = "[[''t'', ''p2'', ''pins'', ''pexp'', ''a'', ''b'', ''c''],
           [''0.1'', ''4.5'', ''1800'', ''1650'', ''0'', ''0'', ''0'']]" and logged = "[]"]
  by (simp add: sample_accepted decimal_float_values decimal_int_values domain_load)

section \<open>The peak search: candidates and the height threshold\<close>

lemma near_sym: "near d j k \<longleftrightarrow> near d k j"
  by (auto simp: near_def)

lemma distance_loop_step:
  "distance_loop d peaks (j # rest) removed =
     (if j \<in> set removed then distance_loop d peaks rest removed
      else distance_loop d peaks rest (removed @ filter (near d j) peaks))"
  by (simp add: near_def [abs_def])

lemma distance_loop_grows: "set removed \<subseteq> set (distance_loop d peaks work removed)"
proof (induction work arbitrary: removed)
  case Nil
  then show ?case by simp
next
  case (Cons j rest)
  show ?case
  proof (cases "j \<in> set removed")
    case True
    with Cons.IH [of removed] show ?thesis by (simp only: distance_loop_step if_True)
  next
    case False
    with Cons.IH [of "removed @ filter (near d j) peaks"] show ?thesis
      by (simp only: distance_loop_step if_False) auto
  qed
qed

lemma distance_loop_append:
  "distance_loop d peaks (w1 @ w2) removed = distance_loop d peaks w2 (distance_loop d peaks w1 removed)"
proof (induction w1 arbitrary: removed)
  case Nil
  then show ?case by simp
next
  case (Cons j rest)
  show ?case
  proof (cases "j \<in> set removed")
    case True
    with Cons.IH [of removed] show ?thesis
      by (simp only: append_Cons distance_loop_step if_True)
  next
    case False
    with Cons.IH [of "removed @ filter (near d j) peaks"] show ?thesis
      by (simp only: append_Cons distance_loop_step if_False)
  qed
qed

lemma distance_loop_kept_marks:
  "\<forall>k\<in>set work. k \<notin> set (distance_loop d peaks work removed) \<longrightarrow>
     (\<forall>j\<in>set peaks. near d k j \<longrightarrow> j \<in> set (distance_loop d peaks work removed))"
proof (induction work arbitrary: removed)
  case Nil
  then show ?case by simp
next
  case (Cons j rest)
  show ?case
  proof (cases "j \<in> set removed")
    case True
    have res: "distance_loop d peaks (j # rest) removed = distance_loop d peaks rest removed"
      using True by (simp only: distance_loop_step if_True)
    have "j \<in> set (distance_loop d peaks rest removed)"
      using True distance_loop_grows [of removed d peaks rest] by blast
    with Cons.IH [of removed] show ?thesis unfolding res by simp
  next
    case False
    let ?r = "removed @ filter (near d j) peaks"
    have res: "distance_loop d peaks (j # rest) removed = distance_loop d peaks rest ?r"
      using False by (simp only: distance_loop_step if_False)
    have "\<forall>i\<in>set peaks. near d j i \<longrightarrow> i \<in> set (distance_loop d peaks rest ?r)"
      using distance_loop_grows [of ?r d peaks rest] by auto
    with Cons.IH [of ?r] show ?thesis unfolding res by simp
  qed
qed

lemma distance_loop_high_agree:
  assumes "\<forall>j\<in>set work. H j"
    and "\<forall>p. H p \<longrightarrow> (p \<in> set r1 \<longleftrightarrow> p \<in> set r2)"
  shows "\<forall>p. H p \<longrightarrow>
     (p \<in> set (distance_loop d peaks work r1) \<longleftrightarrow> p \<in> set (distance_loop d (filter H peaks) work r2))"
  using assms
proof (induction work arbitrary: r1 r2)
  case Nil
  then show ?case by simp
next
  case (Cons j rest)
  from Cons.prems have Hj: "H j" and rest: "\<forall>j\<in>set rest. H j" by simp_all
  show ?case
  proof (cases "j \<in> set r1")
    case True
    with Hj Cons.prems(2) have "j \<in> set r2" by blast
    with True Cons.IH [OF rest Cons.prems(2)] show ?thesis
      by (simp only: distance_loop_step if_True)
  next
    case False
    with Hj Cons.prems(2) have n2: "j \<notin> set r2" by blast
    have "\<forall>p. H p \<longrightarrow> (p \<in> set (r1 @ filter (near d j) peaks)
        \<longleftrightarrow> p \<in> set (r2 @ filter (near d j) (filter H peaks)))"
      using Cons.prems(2) by auto
    from Cons.IH [OF rest this] False n2 show ?thesis
      by (simp only: distance_loop_step if_False)
  qed
qed

lemma distance_loop_low_keeps_high:
  assumes "\<forall>j\<in>set work. \<not> H j \<and> j \<in> set peaks"
    and "\<forall>k\<in>set peaks. H k \<and> k \<notin> set removed \<longrightarrow> (\<forall>j\<in>set peaks. near d k j \<longrightarrow> j \<in> set removed)"
  shows "\<forall>p. H p \<longrightarrow> (p \<in> set (distance_loop d peaks work removed) \<longleftrightarrow> p \<in> set removed)"
  using assms
proof (induction work arbitrary: removed)
  case Nil
  then show ?case by simp
next
  case (Cons j rest)
  from Cons.prems(1) have j: "\<not> H j" "j \<in> set peaks"
    and rest: "\<forall>j\<in>set rest. \<not> H j \<and> j \<in> set peaks" by simp_all
  show ?case
  proof (cases "j \<in> set removed")
    case True
    with Cons.IH [OF rest Cons.prems(2)] show ?thesis
      by (simp only: distance_loop_step if_True)
  next
    case False
    let ?r = "removed @ filter (near d j) peaks"
    have same: "p \<in> set ?r \<longleftrightarrow> p \<in> set removed" if "H p" for p
    proof
      assume "p \<in> set ?r"
      show "p \<in> set removed"
      proof (rule ccontr)
        assume np: "p \<notin> set removed"
        with \<open>p \<in> set ?r\<close> have "p \<in> set peaks" "near d j p" by auto
        then have "near d p j" by (simp add: near_sym)
        with Cons.prems(2) \<open>p \<in> set peaks\<close> that np j(2) have "j \<in> set removed" by blast
        with False show False by simp
      qed
    next
      assume "p \<in> set removed"
      then show "p \<in> set ?r" by simp
    qed
    have inv: "\<forall>k\<in>set peaks. H k \<and> k \<notin> set ?r \<longrightarrow> (\<forall>i\<in>set peaks. near d k i \<longrightarrow> i \<in> set ?r)"
      using Cons.prems(2) by auto
    from Cons.IH [OF rest inv] same False show ?thesis
      by (simp only: distance_loop_step if_False) blast
  qed
qed

lemma sorted_split_by_threshold:
  "sorted (map key ys) \<Longrightarrow>
   ys = filter (\<lambda>p. \<not> h \<le> key p) ys @ filter (\<lambda>p. (h::real) \<le> key p) ys"
proof (induction ys)
  case Nil
  then show ?case by simp
next
  case (Cons y ys)
  then have le: "\<forall>p\<in>set ys. key y \<le> key p" and srt: "sorted (map key ys)" by auto
  show ?case
  proof (cases "h \<le> key y")
    case True
    with le have "\<forall>p\<in>set ys. h \<le> key p" by force
    then have "filter (\<lambda>p. \<not> h \<le> key p) ys = []" "filter (\<lambda>p. h \<le> key p) ys = ys"
      by (simp_all add: filter_empty_conv filter_id_conv)
    with True show ?thesis by simp
  next
    case False
    with Cons.IH [OF srt] show ?thesis by simp
  qed
qed

lemma priority_order_split:
  "rev (sort_key key peaks) =
     rev (sort_key key (filter (\<lambda>p. (h::real) \<le> key p) peaks))
     @ rev (sort_key key (filter (\<lambda>p. \<not> h \<le> key p) peaks))"
proof -
  have "sort_key key peaks =
      filter (\<lambda>p. \<not> h \<le> key p) (sort_key key peaks) @ filter (\<lambda>p. h \<le> key p) (sort_key key peaks)"
    by (rule sorted_split_by_threshold) simp
  then have "sort_key key peaks =
      sort_key key (filter (\<lambda>p. \<not> h \<le> key p) peaks) @ sort_key key (filter (\<lambda>p. h \<le> key p) peaks)"
    by (simp only: filter_sort)
  then have "rev (sort_key key peaks) =
      rev (sort_key key (filter (\<lambda>p. \<not> h \<le> key p) peaks) @ sort_key key (filter (\<lambda>p. h \<le> key p) peaks))"
    by (rule arg_cong)
  then show ?thesis by (simp only: rev_append)
qed

lemma select_by_peak_distance_threshold:
  "select_by_peak_distance x (filter (\<lambda>p. h \<le> x ! p) peaks) d =
     filter (\<lambda>p. h \<le> x ! p) (select_by_peak_distance x peaks d)"
proof -
  define H where "H = (\<lambda>p. h \<le> x ! p)"
  define key where "key = (\<lambda>p. x ! p)"
  define hi where "hi = rev (sort_key key (filter H peaks))"
  define lo where "lo = rev (sort_key key (filter (\<lambda>p. \<not> H p) peaks))"
  define r_hi where "r_hi = distance_loop d peaks hi []"
  define r1 where "r1 = distance_loop d peaks (rev (sort_key key peaks)) []"
  define r2 where "r2 = distance_loop d (filter H peaks) hi []"
  have order: "rev (sort_key key peaks) = hi @ lo"
    unfolding hi_def lo_def H_def key_def by (rule priority_order_split)
  have r1_eq: "r1 = distance_loop d peaks lo r_hi"
    by (simp only: r1_def order distance_loop_append r_hi_def)
  have hi_high: "\<forall>j\<in>set hi. H j" by (simp add: hi_def)
  have agree: "\<forall>p. H p \<longrightarrow> (p \<in> set r_hi \<longleftrightarrow> p \<in> set r2)"
    unfolding r_hi_def r2_def by (rule distance_loop_high_agree [OF hi_high]) simp
  have lo_low: "\<forall>j\<in>set lo. \<not> H j \<and> j \<in> set peaks" by (simp add: lo_def)
  have inv: "\<forall>k\<in>set peaks. H k \<and> k \<notin> set r_hi \<longrightarrow> (\<forall>j\<in>set peaks. near d k j \<longrightarrow> j \<in> set r_hi)"
  proof (intro ballI impI)
    fix k j assume "k \<in> set peaks" "H k \<and> k \<notin> set r_hi" "j \<in> set peaks" "near d k j"
    then have "k \<in> set hi" by (simp add: hi_def)
    with distance_loop_kept_marks [of hi d peaks "[]"] \<open>H k \<and> k \<notin> set r_hi\<close>
      \<open>j \<in> set peaks\<close> \<open>near d k j\<close>
    show "j \<in> set r_hi" unfolding r_hi_def by blast
  qed
  have "\<forall>p. H p \<longrightarrow> (p \<in> set r1 \<longleftrightarrow> p \<in> set r_hi)"
    unfolding r1_eq by (rule distance_loop_low_keeps_high [OF lo_low inv])
  with agree have same: "\<forall>p. H p \<longrightarrow> (p \<in> set r1 \<longleftrightarrow> p \<in> set r2)" by simp
  have "filter (\<lambda>p. p \<notin> set r2) (filter H peaks) = filter H (filter (\<lambda>p. p \<notin> set r1) peaks)"
    unfolding filter_filter by (rule filter_cong) (use same in auto)
  then show ?thesis
    by (simp add: select_by_peak_distance_def Let_def r1_def r2_def hi_def H_def key_def)
qed

lemma find_peaks_threshold:
  assumes "h1 \<le> h2"
  shows "scipy_find_peaks x h2 pro d = filter (\<lambda>p. h2 \<le> x ! p) (scipy_find_peaks x h1 pro d)"
proof -
  let ?H1 = "\<lambda>p. h1 \<le> x ! p" and ?H2 = "\<lambda>p. h2 \<le> x ! p" and ?P = "\<lambda>p. pro \<le> prominence x p"
  have nested: "filter ?H2 (local_maxima x) = filter ?H2 (filter ?H1 (local_maxima x))"
    unfolding filter_filter by (rule filter_cong) (use assms in auto)
  have "scipy_find_peaks x h2 pro d = filter ?P (select_by_peak_distance x (filter ?H2 (local_maxima x)) d)"
    by (simp add: scipy_find_peaks_def Let_def)
  also have "\<dots> = filter ?P (select_by_peak_distance x (filter ?H2 (filter ?H1 (local_maxima x))) d)"
    by (simp only: nested [symmetric])
  also have "\<dots> = filter ?P (filter ?H2 (select_by_peak_distance x (filter ?H1 (local_maxima x)) d))"
    by (simp only: select_by_peak_distance_threshold)
  also have "\<dots> = filter ?H2 (filter ?P (select_by_peak_distance x (filter ?H1 (local_maxima x)) d))"
    unfolding filter_filter by (rule filter_cong) auto
  also have "\<dots> = filter ?H2 (scipy_find_peaks x h1 pro d)"
    by (simp add: scipy_find_peaks_def Let_def)
  finally show ?thesis .
qed

lemma plateau_end_le: "i_ahead \<le> length x - 1 \<Longrightarrow> plateau_end x i i_ahead \<le> length x - 1"
proof (induction x i i_ahead rule: plateau_end.induct)
  case (1 x i i_ahead)
  show ?case
  proof (cases "i_ahead < length x - 1 \<and> x ! i_ahead = x ! i")
    case True
    with "1" have "plateau_end x i (i_ahead + 1) \<le> length x - 1" by simp
    with True show ?thesis by (subst plateau_end.simps) simp
  next
    case False
    with "1.prems" show ?thesis by (subst plateau_end.simps) auto
  qed
qed

lemma local_maxima_from_bounds:
  "\<forall>p\<in>set (local_maxima_from x i). i \<le> p \<and> p + 1 < length x"
proof (induction x i rule: local_maxima_from.induct)
  case (1 x i)
  let ?e = "plateau_end x i (i + 1)"
  show ?case
  proof (cases "i < length x - 1")
    case False
    then show ?thesis by (subst local_maxima_from.simps) simp
  next
    case True
    have ge: "i + 1 \<le> ?e" by (rule plateau_end_ge)
    have le: "?e \<le> length x - 1" using True by (intro plateau_end_le) simp
    show ?thesis
    proof (cases "x ! (i - 1) < x ! i")
      case False
      with True "1.IH"(3) show ?thesis
        by (subst local_maxima_from.simps) (simp, force)
    next
      case rise: True
      show ?thesis
      proof (cases "x ! ?e < x ! i")
        case False
        with True rise "1.IH"(2) show ?thesis
          by (subst local_maxima_from.simps) (simp, force)
      next
        case peak: True
        have mid: "i \<le> (i + (?e - 1)) div 2" "(i + (?e - 1)) div 2 + 1 < length x"
          using ge le True by auto
        have tl: "\<forall>p\<in>set (local_maxima_from x (?e + 1)). i \<le> p \<and> p + 1 < length x"
          using "1.IH"(1) [OF True rise peak] ge by force
        have "local_maxima_from x i = (i + (?e - 1)) div 2 # local_maxima_from x (?e + 1)"
          using True rise peak by (subst local_maxima_from.simps) simp
        with mid tl show ?thesis by simp
      qed
    qed
  qed
qed

lemma local_maxima_from_sorted: "sorted_wrt (<) (local_maxima_from x i)"
proof (induction x i rule: local_maxima_from.induct)
  case (1 x i)
  let ?e = "plateau_end x i (i + 1)"
  show ?case
  proof (cases "i < length x - 1")
    case False
    then show ?thesis by (subst local_maxima_from.simps) simp
  next
    case True
    have ge: "i + 1 \<le> ?e" by (rule plateau_end_ge)
    show ?thesis
    proof (cases "x ! (i - 1) < x ! i")
      case False
      with True "1.IH"(3) show ?thesis
        by (subst local_maxima_from.simps) simp
    next
      case rise: True
      show ?thesis
      proof (cases "x ! ?e < x ! i")
        case False
        with True rise "1.IH"(2) show ?thesis
          by (subst local_maxima_from.simps) simp
      next
        case peak: True
        have "\<forall>p\<in>set (local_maxima_from x (?e + 1)). (i + (?e - 1)) div 2 < p"
          using local_maxima_from_bounds [of x "?e + 1"] ge by force
        moreover have "sorted_wrt (<) (local_maxima_from x (?e + 1))"
          using "1.IH"(1) [OF True rise peak] .
        moreover have "local_maxima_from x i = (i + (?e - 1)) div 2 # local_maxima_from x (?e + 1)"
          using True rise peak by (subst local_maxima_from.simps) simp
        ultimately show ?thesis by simp
      qed
    qed
  qed
qed

lemma find_peaks_sorted_in_range:
  "sorted_wrt (<) (scipy_find_peaks x h pro d) \<and> (\<forall>p\<in>set (scipy_find_peaks x h pro d). p + 1 < length x)"
proof -
  have "sorted_wrt (<) (scipy_find_peaks x h pro d)"
    unfolding scipy_find_peaks_def select_by_peak_distance_def Let_def local_maxima_def
    by (intro sorted_wrt_filter local_maxima_from_sorted)
  moreover have "\<forall>p\<in>set (scipy_find_peaks x h pro d). p + 1 < length x"
    using local_maxima_from_bounds [of x 1]
    by (auto simp: scipy_find_peaks_def select_by_peak_distance_def Let_def local_maxima_def)
  ultimately show ?thesis by simp
qed

lemma count_breaths_scipy_total:
  "\<exists>v. count_breaths scipy_find_peaks x h pro d = Inr (v, length v)
       \<and> length v \<le> length (scipy_find_peaks x h pro d)"
proof -
  have inc: "sorted_wrt (<) (scipy_find_peaks x h pro d)"
    and rng: "\<forall>p\<in>set (scipy_find_peaks x h pro d). p < length x"
    using find_peaks_sorted_in_range [of x h pro d] by auto
  from count_breaths_characterised [of scipy_find_peaks x h pro d "scipy_find_peaks x h pro d", OF refl inc rng]
  obtain v where "count_breaths scipy_find_peaks x h pro d = Inr (v, length v)"
    "subseq v (scipy_find_peaks x h pro d)" by blast
  then show ?thesis using list_emb_length by blast
qed

lemma bump_candidates:
  "scipy_find_peaks bump_flow (1 / 4) default_pro default_d = [1, 50]"
  "scipy_find_peaks bump_flow (3 / 4) default_pro default_d = [1]"
  by code_simp+

lemma bump_counts:
  "count_breaths scipy_find_peaks bump_flow (1 / 4) default_pro default_d = Inr ([], 0)"
  "count_breaths scipy_find_peaks bump_flow (3 / 4) default_pro default_d = Inr ([1], 1)"
  by code_simp+

text \<open>
  Claim C9, as amended. For height thresholds \<open>h1 \<le> h2\<close> and fixed prominence and distance
  (the distance at least 1),
  the candidate peaks found at \<open>h2\<close> are exactly the candidates found at \<open>h1\<close> whose height is
  at least \<open>h2\<close>, so the number of candidates does not decrease when the threshold decreases;
  at each threshold \<^verbatim>\<open>count_breaths\<close> returns a count that is at most the number of
  candidates.
\<close>

theorem candidate_peaks_monotone_in_height:
  "h1 \<le> h2 \<and> 1 \<le> d \<longrightarrow>
     scipy_find_peaks x h2 pro d = filter (\<lambda>p. h2 \<le> x ! p) (scipy_find_peaks x h1 pro d)
     \<and> length (scipy_find_peaks x h2 pro d) \<le> length (scipy_find_peaks x h1 pro d)
     \<and> (\<exists>v1 v2. count_breaths scipy_find_peaks x h1 pro d = Inr (v1, length v1)
           \<and> count_breaths scipy_find_peaks x h2 pro d = Inr (v2, length v2)
           \<and> length v1 \<le> length (scipy_find_peaks x h1 pro d)
           \<and> length v2 \<le> length (scipy_find_peaks x h2 pro d))"
proof
  assume "h1 \<le> h2 \<and> 1 \<le> d"
  then have le: "h1 \<le> h2" by simp
  have eq: "scipy_find_peaks x h2 pro d = filter (\<lambda>p. h2 \<le> x ! p) (scipy_find_peaks x h1 pro d)"
    using le by (rule find_peaks_threshold)
  have "length (filter (\<lambda>p. h2 \<le> x ! p) (scipy_find_peaks x h1 pro d)) \<le> length (scipy_find_peaks x h1 pro d)"
    by (rule length_filter_le)
  then have len: "length (scipy_find_peaks x h2 pro d) \<le> length (scipy_find_peaks x h1 pro d)"
    by (simp only: eq [symmetric])
  from count_breaths_scipy_total [of x h1 pro d] count_breaths_scipy_total [of x h2 pro d]
  have cnt: "\<exists>v1 v2. count_breaths scipy_find_peaks x h1 pro d = Inr (v1, length v1)
           \<and> count_breaths scipy_find_peaks x h2 pro d = Inr (v2, length v2)
           \<and> length v1 \<le> length (scipy_find_peaks x h1 pro d)
           \<and> length v2 \<le> length (scipy_find_peaks x h2 pro d)"
    by blast
  from eq len cnt show "scipy_find_peaks x h2 pro d = filter (\<lambda>p. h2 \<le> x ! p) (scipy_find_peaks x h1 pro d)
     \<and> length (scipy_find_peaks x h2 pro d) \<le> length (scipy_find_peaks x h1 pro d)
     \<and> (\<exists>v1 v2. count_breaths scipy_find_peaks x h1 pro d = Inr (v1, length v1)
           \<and> count_breaths scipy_find_peaks x h2 pro d = Inr (v2, length v2)
           \<and> length v1 \<le> length (scipy_find_peaks x h1 pro d)
           \<and> length v2 \<le> length (scipy_find_peaks x h2 pro d))"
    by blast
qed

theorem candidate_peaks_monotone_in_height_witness:
  "scipy_find_peaks bump_flow (3 / 4) default_pro default_d = [1]
   \<and> scipy_find_peaks bump_flow (1 / 4) default_pro default_d = [1, 50]
   \<and> length (scipy_find_peaks bump_flow (3 / 4) default_pro default_d)
       \<le> length (scipy_find_peaks bump_flow (1 / 4) default_pro default_d)
   \<and> (\<exists>v1 v2. count_breaths scipy_find_peaks bump_flow (1 / 4) default_pro default_d = Inr (v1, length v1)
         \<and> count_breaths scipy_find_peaks bump_flow (3 / 4) default_pro default_d = Inr (v2, length v2)
         \<and> length v1 \<le> length [1, 50 :: nat] \<and> length v2 \<le> length [1 :: nat])"
proof -
  have le: "(1 / 4 :: real) \<le> 3 / 4 \<and> 1 \<le> default_d" by (simp add: default_d_def)
  note r = candidate_peaks_monotone_in_height [where ?h1.0 = "1 / 4" and ?h2.0 = "3 / 4"
      and x = bump_flow and pro = default_pro and d = default_d, THEN mp, OF le]
  from r have b: "length (scipy_find_peaks bump_flow (3 / 4) default_pro default_d)
       \<le> length (scipy_find_peaks bump_flow (1 / 4) default_pro default_d)" by blast
  from r have "\<exists>v1 v2. count_breaths scipy_find_peaks bump_flow (1 / 4) default_pro default_d = Inr (v1, length v1)
         \<and> count_breaths scipy_find_peaks bump_flow (3 / 4) default_pro default_d = Inr (v2, length v2)
         \<and> length v1 \<le> length (scipy_find_peaks bump_flow (1 / 4) default_pro default_d)
         \<and> length v2 \<le> length (scipy_find_peaks bump_flow (3 / 4) default_pro default_d)" by blast
  then have c: "\<exists>v1 v2. count_breaths scipy_find_peaks bump_flow (1 / 4) default_pro default_d = Inr (v1, length v1)
         \<and> count_breaths scipy_find_peaks bump_flow (3 / 4) default_pro default_d = Inr (v2, length v2)
         \<and> length v1 \<le> length [1, 50 :: nat] \<and> length v2 \<le> length [1 :: nat]"
    by (simp only: bump_candidates)
  from bump_candidates b c show ?thesis by blast
qed

text \<open>
  Claim C9 as stated fails: the breath count can drop when the height threshold decreases.
  At the threshold 3/4 the only candidate is the peak at position 1, accepted as the final
  peak because a zero follows it; at 1/4 the peak at position 50 is a candidate too, so the
  peak at position 1 is judged by the pair rule and rejected because the sample right after
  it is zero, and the peak at 50 is rejected because no zero follows it.
\<close>

theorem breath_count_not_monotone_counterexample:
  "(1 / 4 :: real) \<le> 3 / 4
   \<and> count_breaths scipy_find_peaks bump_flow (1 / 4) default_pro default_d = Inr ([], 0)
   \<and> count_breaths scipy_find_peaks bump_flow (3 / 4) default_pro default_d = Inr ([1], 1)
   \<and> (0 :: nat) < 1"
  by (simp add: bump_counts)

section \<open>Metrics: the outcome of the write\<close>

lemma set_splitext_root: "set (splitext_root p) \<subseteq> set p"
proof -
  have d: "set (dropWhile (\<lambda>c. c \<noteq> CHR ''/'') (rev p)) \<subseteq> set p"
    using set_dropWhileD [of _ "\<lambda>c. c \<noteq> CHR ''/''" "rev p"] by auto
  have n: "set (takeWhile (\<lambda>c. c \<noteq> CHR ''/'') (rev p)) \<subseteq> set p"
    using set_takeWhileD [of _ "\<lambda>c. c \<noteq> CHR ''/''" "rev p"] by auto
  have b: "set before \<subseteq> set p"
    if "dropWhile (\<lambda>c. c \<noteq> CHR ''.'') (rev (rev (takeWhile (\<lambda>c. c \<noteq> CHR ''/'') (rev p)))) = dot # before"
    for dot before
  proof -
    have "set (dot # before) \<subseteq> set (takeWhile (\<lambda>c. c \<noteq> CHR ''/'') (rev p))"
      using set_dropWhileD [of _ "\<lambda>c. c \<noteq> CHR ''.''" "takeWhile (\<lambda>c. c \<noteq> CHR ''/'') (rev p)"] that
      by auto
    with n show ?thesis by auto
  qed
  show ?thesis
    unfolding splitext_root_def Let_def using d b
    by (auto split: list.splits)
qed

lemma output_file_no_directory: "CHR ''/'' \<notin> set (output_file_of input_file)"
proof -
  have "CHR ''/'' \<notin> set (basename input_file)"
    using set_takeWhileD [of "CHR ''/''" "\<lambda>c. c \<noteq> CHR ''/''" "rev input_file"]
    by (auto simp: basename_def)
  with set_splitext_root [of "basename input_file"] show ?thesis
    by (auto simp: output_file_of_def)
qed

lemma get_metrics_returned:
  assumes "get_metrics find_peaks dsk t_vs_flow input_file = Inr (m, dsk', logged)"
  shows "writable dsk (output_file_of input_file)
     \<and> dsk' = dsk\<lparr> json_files := (json_files dsk)(output_file_of input_file \<mapsto> m) \<rparr>"
  using assms
  by (auto simp: get_metrics_def and_then_def Let_def split: sum.splits if_splits)

lemma get_metrics_unwritable:
  assumes "\<not> writable dsk (output_file_of input_file)"
  shows "\<exists>e. get_metrics find_peaks dsk t_vs_flow input_file = Inl e"
  using assms
  by (auto simp: get_metrics_def and_then_def Let_def split: sum.splits)

lemma get_metrics_other_disk:
  assumes "get_metrics find_peaks dsk t_vs_flow input_file = Inr (m, dsk', logged)"
  shows "(\<not> writable dsk2 (output_file_of input_file) \<longrightarrow>
            get_metrics find_peaks dsk2 t_vs_flow input_file = Inl OSError)
     \<and> (writable dsk2 (output_file_of input_file) \<longrightarrow>
            get_metrics find_peaks dsk2 t_vs_flow input_file =
              Inr (m, dsk2\<lparr> json_files := (json_files dsk2)(output_file_of input_file \<mapsto> m) \<rparr>, logged))"
  using assms
  by (auto simp: get_metrics_def and_then_def Let_def split: sum.splits if_splits)

lemma take_items_in_range:
  "\<forall>i\<in>set positions. i < length xs \<Longrightarrow> take_items xs positions = Inr (map ((!) xs) positions)"
  by (induction positions) (simp_all add: and_then_def item_def)

lemma calculate_leakage_total:
  assumes "length time = length flow"
  shows "\<exists>v logged. calculate_leakage (time, flow) = Inr (v, logged)"
proof -
  have "\<forall>i\<in>set [0..<length flow - 1]. i < length flow \<and> i < length (diff time)"
    using assms by (auto simp: length_diff)
  from leakage_loop_sum [OF this, of 0] show ?thesis
    by (simp add: calculate_leakage_def and_then_def Let_def)
qed

lemma get_metrics_total:
  assumes fp: "find_peaks flow default_h default_pro default_d = peaks"
    and inc: "sorted_wrt (<) peaks"
    and rng: "\<forall>p\<in>set peaks. p < length flow"
    and len: "length time = length flow"
    and ne: "time \<noteq> []"
    and dur: "last time \<noteq> hd time"
    and wr: "writable dsk (output_file_of input_file)"
  shows "\<exists>m logged. get_metrics find_peaks dsk (time, flow) input_file =
           Inr (m, dsk\<lparr> json_files := (json_files dsk)(output_file_of input_file \<mapsto> m) \<rparr>, logged)
         \<and> duration m = last time - hd time"
proof -
  from count_breaths_characterised [of find_peaks flow default_h default_pro default_d peaks] fp inc rng
  obtain valid where cb: "count_breaths find_peaks flow default_h default_pro default_d = Inr (valid, length valid)"
    and sub: "subseq valid peaks" by blast
  have "set valid \<subseteq> set peaks"
  proof
    fix v assume "v \<in> set valid"
    with sub obtain y where "y \<in> set peaks" "v = y" by (rule list_emb_set)
    then show "v \<in> set peaks" by simp
  qed
  with rng len have "\<forall>i\<in>set valid. i < length time" by auto
  then have ti: "take_items time valid = Inr (map ((!) time) valid)"
    by (rule take_items_in_range)
  from calculate_leakage_total [OF len] obtain v lg where lk: "calculate_leakage (time, flow) = Inr (v, lg)"
    by blast
  have cd: "calculate_duration (time, flow) = Inr (last time - hd time)"
    using ne by (simp add: calculate_duration_def)
  have nz: "last time - hd time \<noteq> 0" using dur by simp
  have bt: "\<exists>bts. calculate_breath_times find_peaks (time, flow) = Inr bts"
    using cb ti by (simp add: calculate_breath_times_def and_then_def Let_def)
  then obtain bts where bts: "calculate_breath_times find_peaks (time, flow) = Inr bts" by blast
  show ?thesis
    using cd cb nz bts lk wr
    by (simp add: get_metrics_def and_then_def Let_def calculate_breath_rate_bpm_def count_apnea_def)
qed

lemma sample_output_file: "output_file_of ''sample_data/patient_02.txt'' = ''patient_02.json''"
  by (simp add: output_file_of_def splitext_root_def basename_def)

lemma zero_flow_metrics:
  "\<exists>m logged. get_metrics scipy_find_peaks open_disk ([0, 1, 2, 3], [0, 0, 0, 0]) ''sample_data/patient_02.txt'' =
      Inr (m, open_disk\<lparr> json_files := (json_files open_disk)(''patient_02.json'' \<mapsto> m) \<rparr>, logged)
    \<and> duration m = 3"
proof -
  let ?flow = "[0, 0, 0, 0] :: real list"
  have inc: "sorted_wrt (<) (scipy_find_peaks ?flow default_h default_pro default_d)"
    and rng: "\<forall>p\<in>set (scipy_find_peaks ?flow default_h default_pro default_d). p < length ?flow"
    using find_peaks_sorted_in_range [of ?flow default_h default_pro default_d] by auto
  have wr: "writable open_disk (output_file_of ''sample_data/patient_02.txt'')"
    by (simp add: open_disk_def)
  from get_metrics_total [of scipy_find_peaks ?flow _ "[0, 1, 2, 3]" open_disk "''sample_data/patient_02.txt''",
      OF refl inc rng _ _ _ wr]
  show ?thesis by (simp add: sample_output_file)
qed

text \<open>
  Claim C7, as amended. When \<^verbatim>\<open>get_metrics\<close> returns the metrics, the output file was
  writable and holds exactly the returned metrics; the same analysis with an output file that
  cannot be written raises OSError, and with an unwritable output file \<^verbatim>\<open>get_metrics\<close>
  always raises and returns nothing. For aligned time and flow of nonzero duration and a
  writable output file it does return. The output file is named by the stem of the input
  file name followed by \<^verbatim>\<open>.json\<close>, without the directory of the input file.
\<close>

theorem get_metrics_write_outcome:
  "(get_metrics find_peaks dsk t_vs_flow input_file = Inr (m, dsk', logged) \<longrightarrow>
      writable dsk (output_file_of input_file)
      \<and> dsk' = dsk\<lparr> json_files := (json_files dsk)(output_file_of input_file \<mapsto> m) \<rparr>
      \<and> (\<not> writable dsk2 (output_file_of input_file) \<longrightarrow>
           get_metrics find_peaks dsk2 t_vs_flow input_file = Inl OSError))
   \<and> (\<not> writable dsk (output_file_of input_file) \<longrightarrow>
        (\<exists>e. get_metrics find_peaks dsk t_vs_flow input_file = Inl e))
   \<and> (find_peaks flow default_h default_pro default_d = peaks \<and> sorted_wrt (<) peaks
        \<and> (\<forall>p\<in>set peaks. p < length flow) \<and> length time = length flow
        \<and> time \<noteq> [] \<and> last time \<noteq> hd time \<and> writable dsk (output_file_of input_file) \<longrightarrow>
        (\<exists>m logged. get_metrics find_peaks dsk (time, flow) input_file =
            Inr (m, dsk\<lparr> json_files := (json_files dsk)(output_file_of input_file \<mapsto> m) \<rparr>, logged)
          \<and> duration m = last time - hd time))
   \<and> output_file_of input_file = splitext_root (basename input_file) @ ''.json''
   \<and> CHR ''/'' \<notin> set (output_file_of input_file)"
  using get_metrics_returned [of find_peaks dsk t_vs_flow input_file m dsk' logged]
    get_metrics_other_disk [of find_peaks dsk t_vs_flow input_file m dsk' logged dsk2]
    get_metrics_unwritable [of dsk input_file find_peaks t_vs_flow]
    get_metrics_total [of find_peaks flow peaks time dsk input_file]
    output_file_no_directory [of input_file]
  by (simp add: output_file_of_def [symmetric])

theorem get_metrics_write_outcome_witness:
  "(\<exists>m logged. get_metrics scipy_find_peaks open_disk ([0, 1, 2, 3], [0, 0, 0, 0]) ''sample_data/patient_02.txt'' =
      Inr (m, open_disk\<lparr> json_files := (json_files open_disk)(''patient_02.json'' \<mapsto> m) \<rparr>, logged)
    \<and> duration m = 3)
   \<and> get_metrics scipy_find_peaks read_only_disk ([0, 1, 2, 3], [0, 0, 0, 0]) ''sample_data/patient_02.txt'' = Inl OSError
   \<and> output_file_of ''sample_data/patient_02.txt'' = ''patient_02.json''
   \<and> CHR ''/'' \<notin> set (output_file_of ''sample_data/patient_02.txt'')"
proof -
  let ?flow = "[0, 0, 0, 0] :: real list"
  let ?time = "[0, 1, 2, 3] :: real list"
  let ?f = "''sample_data/patient_02.txt''"
  let ?peaks = "scipy_find_peaks ?flow default_h default_pro default_d"
  have hyp: "scipy_find_peaks ?flow default_h default_pro default_d = ?peaks \<and> sorted_wrt (<) ?peaks
      \<and> (\<forall>p\<in>set ?peaks. p < length ?flow) \<and> length ?time = length ?flow
      \<and> ?time \<noteq> [] \<and> last ?time \<noteq> hd ?time \<and> writable open_disk (output_file_of ?f)"
    using find_peaks_sorted_in_range [of ?flow default_h default_pro default_d]
    by (auto simp: open_disk_def)
  have ro: "\<not> writable read_only_disk (output_file_of ?f)" by (simp add: read_only_disk_def)
  note th = get_metrics_write_outcome [where find_peaks = scipy_find_peaks and dsk = open_disk
      and input_file = ?f and flow = ?flow and time = ?time and ?dsk2.0 = read_only_disk
      and peaks = ?peaks and t_vs_flow = "(?time, ?flow)"]
  from th have "scipy_find_peaks ?flow default_h default_pro default_d = ?peaks \<and> sorted_wrt (<) ?peaks
      \<and> (\<forall>p\<in>set ?peaks. p < length ?flow) \<and> length ?time = length ?flow
      \<and> ?time \<noteq> [] \<and> last ?time \<noteq> hd ?time \<and> writable open_disk (output_file_of ?f) \<longrightarrow>
      (\<exists>m logged. get_metrics scipy_find_peaks open_disk (?time, ?flow) ?f =
          Inr (m, open_disk\<lparr> json_files := (json_files open_disk)(output_file_of ?f \<mapsto> m) \<rparr>, logged)
        \<and> duration m = last ?time - hd ?time)"
    by blast
  with hyp obtain m lg where m: "get_metrics scipy_find_peaks open_disk (?time, ?flow) ?f =
      Inr (m, open_disk\<lparr> json_files := (json_files open_disk)(output_file_of ?f \<mapsto> m) \<rparr>, lg)"
      "duration m = last ?time - hd ?time"
    by blast
  from th [where m = m and logged = lg
      and dsk' = "open_disk\<lparr> json_files := (json_files open_disk)(output_file_of ?f \<mapsto> m) \<rparr>"] m(1) ro
  have fail: "get_metrics scipy_find_peaks read_only_disk (?time, ?flow) ?f = Inl OSError" by blast
  from th have nodir: "CHR ''/'' \<notin> set (output_file_of ?f)" by blast
  have d3: "duration m = 3" using m(2) by simp
  from m(1) d3 have ex: "\<exists>m logged. get_metrics scipy_find_peaks open_disk (?time, ?flow) ?f =
      Inr (m, open_disk\<lparr> json_files := (json_files open_disk)(''patient_02.json'' \<mapsto> m) \<rparr>, logged)
    \<and> duration m = 3"
    unfolding sample_output_file by blast
  from ex fail nodir sample_output_file show ?thesis by blast
qed

text \<open>
  Claim C7 as stated fails: with an output file that cannot be written \<^verbatim>\<open>get_metrics\<close>
  raises OSError instead of returning the metrics, and for the input
  \<^verbatim>\<open>sample_data/patient_02.txt\<close> the output file is \<^verbatim>\<open>patient_02.json\<close> in the working
  directory, not a sibling of the input file.
\<close>

theorem get_metrics_write_failure_counterexample:
  "get_metrics scipy_find_peaks read_only_disk ([0, 1, 2, 3], [0, 0, 0, 0]) ''sample_data/patient_02.txt'' = Inl OSError
   \<and> output_file_of ''sample_data/patient_02.txt'' = ''patient_02.json''"
proof -
  from zero_flow_metrics obtain m lg where
    "get_metrics scipy_find_peaks open_disk ([0, 1, 2, 3], [0, 0, 0, 0]) ''sample_data/patient_02.txt'' =
      Inr (m, open_disk\<lparr> json_files := (json_files open_disk)(''patient_02.json'' \<mapsto> m) \<rparr>, lg)"
    by blast
  from get_metrics_other_disk [OF this, of read_only_disk]
  show ?thesis by (simp add: sample_output_file read_only_disk_def)
qed

end
